theory Spec2Isabelle
  imports Complex_Main "HOL-Library.Sublist"
begin

section \<open>JavaScript values\<close>

text \<open>
  The payloads that reach \<^verbatim>\<open>handleMailDrop\<close> and the \<^verbatim>\<open>process-dropped-files\<close>
  handler are plain data: primitives, arrays and objects without accessors. An object is
  the list of its own enumerable properties in the order \<^verbatim>\<open>Object.values\<close> visits
  them. Numbers enter the handlers only through \<^verbatim>\<open>typeof\<close> and truthiness, so a number
  is an integer or \<^verbatim>\<open>NaN\<close>. A string is a list of code units below 256.
\<close>

datatype jsval =
    JUndefined
  | JNull
  | JBool bool
  | JNum int
  | JNaN
  | JStr string
  | JArr "jsval list"
  | JObj "(string \<times> jsval) list"

fun truthy :: "jsval \<Rightarrow> bool" where
  "truthy JUndefined = False"
| "truthy JNull = False"
| "truthy (JBool b) = b"
| "truthy (JNum n) = (n \<noteq> 0)"
| "truthy JNaN = False"
| "truthy (JStr s) = (s \<noteq> [])"
| "truthy (JArr xs) = True"
| "truthy (JObj ps) = True"

fun typeof :: "jsval \<Rightarrow> string" where
  "typeof JUndefined = ''undefined''"
| "typeof JNull = ''object''"
| "typeof (JBool b) = ''boolean''"
| "typeof (JNum n) = ''number''"
| "typeof JNaN = ''number''"
| "typeof (JStr s) = ''string''"
| "typeof (JArr xs) = ''object''"
| "typeof (JObj ps) = ''object''"

fun Array_isArray :: "jsval \<Rightarrow> bool" where
  "Array_isArray (JArr xs) = True"
| "Array_isArray v = False"

text \<open>The elements of an array value; the callers test \<^verbatim>\<open>Array.isArray\<close> first.\<close>

fun elements :: "jsval \<Rightarrow> jsval list" where
  "elements (JArr xs) = xs"
| "elements v = []"

text \<open>
  Property read \<^verbatim>\<open>v.key\<close> on a value that is neither \<^verbatim>\<open>null\<close> nor
  \<^verbatim>\<open>undefined\<close> (the callers test truthiness first). The only key read from a payload
  is \<^verbatim>\<open>paths\<close>, which no primitive and no array carries.
\<close>

fun property :: "jsval \<Rightarrow> string \<Rightarrow> jsval" where
  "property (JObj ps) key = (case map_of ps key of Some v \<Rightarrow> v | None \<Rightarrow> JUndefined)"
| "property v key = JUndefined"

text \<open>\<^verbatim>\<open>Object.values\<close>, called on objects only.\<close>

fun Object_values :: "jsval \<Rightarrow> jsval list" where
  "Object_values (JObj ps) = map snd ps"
| "Object_values (JArr xs) = xs"
| "Object_values v = []"

text \<open>
  \<^verbatim>\<open>String.prototype.trim\<close> removes white space and line terminators from both ends.
  Below 256 these are TAB, LF, VT, FF, CR, SPACE and NBSP.
\<close>

definition is_white :: "char \<Rightarrow> bool" where
  "is_white c = (of_char c \<in> {9, 10, 11, 12, 13, 32, 160 :: nat})"

definition trim :: "string \<Rightarrow> string" where
  "trim s = rev (dropWhile is_white (rev (dropWhile is_white s)))"

text \<open>\<^verbatim>\<open>p.trim()\<close> on a value whose \<^verbatim>\<open>typeof\<close> is \<^verbatim>\<open>'string'\<close>.\<close>

fun trimmed :: "jsval \<Rightarrow> jsval" where
  "trimmed (JStr s) = JStr (trim s)"
| "trimmed v = JUndefined"

fun is_string :: "jsval \<Rightarrow> bool" where
  "is_string (JStr s) = True"
| "is_string v = False"

section \<open>mail-drop-handler.js\<close>

text \<open>
  First stage of \<^verbatim>\<open>handleMailDrop\<close> (lines 28 to 45): the value of the local
  \<^verbatim>\<open>sanitizedPaths\<close> when the filter starts. \<^verbatim>\<open>Object.values\<close> of a plain object
  does not throw, so the \<^verbatim>\<open>catch\<close> of line 38 has no branch here.
\<close>

definition sanitizedPaths :: "jsval \<Rightarrow> jsval list" where
  "sanitizedPaths filePaths =
    (if Array_isArray filePaths then elements filePaths
     else if truthy filePaths \<and> typeof filePaths = ''string''
             \<and> trimmed filePaths \<noteq> JStr '''' then [trimmed filePaths]
     else if truthy filePaths \<and> typeof filePaths = ''object''
             \<and> truthy (property filePaths ''paths'')
             \<and> Array_isArray (property filePaths ''paths'') then elements (property filePaths ''paths'')
     else if truthy filePaths \<and> typeof filePaths = ''object'' then
       filter (\<lambda>p. typeof p = ''string'' \<and> trimmed p \<noteq> JStr '''') (Object_values filePaths)
     else [])"

text \<open>
  \<^verbatim>\<open>handleMailDrop\<close> as a whole. \<^verbatim>\<open>fs.existsSync\<close> is the file system at the time of
  the call, a parameter.
\<close>

definition handleMailDrop :: "(jsval \<Rightarrow> bool) \<Rightarrow> jsval \<Rightarrow> jsval list" where
  "handleMailDrop existsSync filePaths =
    filter (\<lambda>filePath. if \<not> existsSync filePath then False else True)
      (sanitizedPaths filePaths)"

text \<open>What the \<^verbatim>\<open>process-dropped-files\<close> handler sends through \<^verbatim>\<open>event.sender\<close>.\<close>

datatype reply = Send_error string | Send_file_dropped "jsval list"

definition process_dropped_files :: "(jsval \<Rightarrow> bool) \<Rightarrow> jsval \<Rightarrow> reply list" where
  "process_dropped_files existsSync data =
    (if \<not> truthy data \<or> \<not> truthy (property data ''paths'') then
       [Send_error ''No valid files found for processing.'']
     else
       let filePaths = property data ''paths'';
           pathsArray = (if Array_isArray filePaths then elements filePaths
                         else if typeof filePaths = ''string'' then [filePaths] else [])
       in if length pathsArray = 0 then
            [Send_error ''No valid files found for processing.'']
          else
            let validFiles = filter (\<lambda>filePath. truthy filePath
                                      \<and> typeof filePath = ''string'' \<and> existsSync filePath)
                               pathsArray
            in if length validFiles = 0 then
                 [Send_error ''No valid files found for processing.'']
               else [Send_file_dropped validFiles])"

text \<open>
  The entries of the \<^verbatim>\<open>paths\<close> field of a payload, in the words of the interface table:
  an array stands for its elements, a single string for itself, anything else (and a
  payload without the field) for no entry at all.
\<close>

fun paths_entries :: "jsval \<Rightarrow> jsval list" where
  "paths_entries (JObj props) =
     (case map_of props ''paths'' of
        Some (JArr xs) \<Rightarrow> xs
      | Some (JStr s) \<Rightarrow> [JStr s]
      | _ \<Rightarrow> [])"
| "paths_entries v = []"

section \<open>eml-parser.js\<close>

text \<open>A thrown \<^verbatim>\<open>Error\<close> object with its \<^verbatim>\<open>message\<close>.\<close>

datatype js_error = Error (message: string)

text \<open>\<^verbatim>\<open>ClassificationResult\<close>: \<^verbatim>\<open>{type, name, confidence}\<close>.\<close>

record classification =
  nl_type :: string
  nl_name :: string
  nl_confidence :: int

text \<open>
  What \<^verbatim>\<open>parseEmlFile\<close> reads of the object \<^verbatim>\<open>simpleParser\<close> resolves to. \<^verbatim>\<open>None\<close>
  is a field that is missing (or \<^verbatim>\<open>false\<close>, as mailparser's \<^verbatim>\<open>html\<close> is without an HTML
  part). \<^verbatim>\<open>p_from\<close> holds the \<^verbatim>\<open>text\<close> of the address object, \<^verbatim>\<open>p_date\<close> the
  \<^verbatim>\<open>toUTCString()\<close> of the date. Attachment records are opaque: \<^typ>\<open>'a\<close>.
\<close>

record 'a parsed_mail =
  p_subject :: "string option"
  p_from :: "string option option"
  p_text :: "string option"
  p_html :: "string option"
  p_date :: "string option"
  p_attachments :: "'a list option"

text \<open>
  The object \<^verbatim>\<open>parseEmlFile\<close> returns. Each field is a key of the object literal;
  \<^verbatim>\<open>env_attachments = None\<close> is an object without the key \<^verbatim>\<open>attachments\<close>.
\<close>

record 'a envelope =
  env_subject :: string
  env_from :: string
  env_text :: string
  env_html :: string
  env_date :: string
  env_attachments :: "'a list option"
  env_newsletterInfo :: classification

text \<open>
  The collaborators of \<^verbatim>\<open>parseEmlFile\<close>: the file system (\<^verbatim>\<open>fs.readFileSync\<close> may throw
  though \<^verbatim>\<open>fs.existsSync\<close> just held), mailparser's \<^verbatim>\<open>simpleParser\<close> (which may reject),
  \<^verbatim>\<open>path.basename\<close> with an extension, and the clock as \<^verbatim>\<open>new Date().toUTCString()\<close>.

  Modelled from the spec: the Newsletter Classifier \<^verbatim>\<open>./newsletter-detector\<close> is not among
  the sources. Given the normalized envelope it returns a \<^verbatim>\<open>{type, name, confidence}\<close>
  guess or throws; \<^verbatim>\<open>None\<close> is a module that is unavailable or exports no function
  \<^verbatim>\<open>detectNewsletterType\<close>.
\<close>

record 'a platform =
  fs_existsSync :: "string \<Rightarrow> bool"
  fs_readFileSync :: "string \<Rightarrow> js_error + string"
  simpleParser :: "string \<Rightarrow> js_error + 'a parsed_mail"
  path_basename :: "string \<Rightarrow> string \<Rightarrow> string"
  now_toUTCString :: string
  detectNewsletterType :: "('a envelope \<Rightarrow> js_error + classification) option"

text \<open>\<^verbatim>\<open>v || d\<close> for a string that may be missing: the empty string is falsy.\<close>

definition or_string :: "string option \<Rightarrow> string \<Rightarrow> string" where
  "or_string v d = (case v of Some s \<Rightarrow> if s \<noteq> [] then s else d | None \<Rightarrow> d)"

text \<open>Lines 30 to 38: the result of a successful parse, before classification.\<close>

definition basic_result :: "'a platform \<Rightarrow> string \<Rightarrow> 'a parsed_mail \<Rightarrow> 'a envelope" where
  "basic_result P emlFilePath parsed =
    \<lparr> env_subject = or_string (p_subject parsed) (path_basename P emlFilePath ''.eml''),
      env_from = (case p_from parsed of Some a \<Rightarrow> or_string a '''' | None \<Rightarrow> ''''),
      env_text = or_string (p_text parsed) '''',
      env_html = or_string (p_html parsed) '''',
      env_date = (case p_date parsed of Some d \<Rightarrow> d | None \<Rightarrow> now_toUTCString P),
      env_attachments = Some (case p_attachments parsed of Some as \<Rightarrow> as | None \<Rightarrow> []),
      env_newsletterInfo = \<lparr> nl_type = ''generic'', nl_name = ''Newsletter'', nl_confidence = 0 \<rparr> \<rparr>"

text \<open>Lines 41 to 49: classification, with its own \<^verbatim>\<open>try\<close>.\<close>

definition classify :: "'a platform \<Rightarrow> 'a envelope \<Rightarrow> 'a envelope" where
  "classify P result =
    (case detectNewsletterType P of
       None \<Rightarrow> result
     | Some detect \<Rightarrow>
        (case detect result of
           Inl detectorError \<Rightarrow> result
         | Inr info \<Rightarrow> result\<lparr> env_newsletterInfo := info \<rparr>))"

text \<open>Lines 56 to 63: the minimal result for errors.\<close>

definition error_result :: "'a platform \<Rightarrow> string \<Rightarrow> js_error \<Rightarrow> 'a envelope" where
  "error_result P emlFilePath error =
    \<lparr> env_subject = path_basename P emlFilePath ''.eml'',
      env_from = '''',
      env_text = ''Error parsing file: '' @ message error,
      env_html = ''<p>Error parsing file: '' @ message error @ ''</p>'',
      env_date = now_toUTCString P,
      env_attachments = None,
      env_newsletterInfo = \<lparr> nl_type = ''generic'', nl_name = ''Newsletter'', nl_confidence = 0 \<rparr> \<rparr>"

text \<open>
  \<^verbatim>\<open>parseEmlFile\<close>: \<^verbatim>\<open>Inl\<close> is the rejection of the promise the async function
  returns, \<^verbatim>\<open>Inr\<close> the value it resolves to.
\<close>

definition parseEmlFile :: "'a platform \<Rightarrow> string \<Rightarrow> js_error + 'a envelope" where
  "parseEmlFile P emlFilePath =
    (if \<not> fs_existsSync P emlFilePath then Inl (Error (''File not found: '' @ emlFilePath))
     else
       case fs_readFileSync P emlFilePath of
         Inl error \<Rightarrow> Inr (error_result P emlFilePath error)
       | Inr emlContent \<Rightarrow>
          (case simpleParser P emlContent of
             Inl error \<Rightarrow> Inr (error_result P emlFilePath error)
           | Inr parsed \<Rightarrow> Inr (classify P (basic_result P emlFilePath parsed))))"

text \<open>A disk on which every path exists and no file can be read.\<close>

definition unreadable_disk :: "nat platform" where
  "unreadable_disk =
    \<lparr> fs_existsSync = (\<lambda>p. True),
      fs_readFileSync = (\<lambda>p. Inl (Error ''EACCES: permission denied'')),
      simpleParser = (\<lambda>c. Inl (Error ''unreachable'')),
      path_basename = (\<lambda>p ext. ''a''),
      now_toUTCString = ''Thu, 01 Jan 1970 00:00:00 GMT'',
      detectNewsletterType = None \<rparr>"

text \<open>A disk holding one readable file, a parser that finds a subject only.\<close>

definition one_mail_disk :: "nat platform" where
  "one_mail_disk =
    \<lparr> fs_existsSync = (\<lambda>p. p = ''/tmp/a.eml''),
      fs_readFileSync = (\<lambda>p. if p = ''/tmp/a.eml'' then Inr ''Subject: Hi'' else Inl (Error ''ENOENT'')),
      simpleParser = (\<lambda>c. if c = ''Subject: Hi''
         then Inr \<lparr> p_subject = Some ''Hi'', p_from = None, p_text = None, p_html = None,
                    p_date = None, p_attachments = None \<rparr>
         else Inl (Error ''bad mail'')),
      path_basename = (\<lambda>p ext. ''a''),
      now_toUTCString = ''Thu, 01 Jan 1970 00:00:00 GMT'',
      detectNewsletterType = None \<rparr>"

section \<open>renderer.js\<close>

text \<open>
  The renderer keeps its state in module-level variables and in the page. The status
  line and the preview panel hold the template that was rendered last together with the
  values interpolated into it, not the markup.
\<close>

subsection \<open>Double arithmetic\<close>

text \<open>
  A JavaScript number is the real value of an IEEE 754 double. Comparison, \<^verbatim>\<open>Math.min\<close>
  and \<^verbatim>\<open>Math.round\<close> are exact on doubles; a decimal literal and the sum of two doubles
  are the exact value rounded to the nearest double, a tie going to the even significand.
  \<^verbatim>\<open>to_double\<close> is that rounding for a value in the normal range (magnitude from
  \<^verbatim>\<open>2^-1022\<close> to below \<^verbatim>\<open>2^1024\<close>): the significand has 53 bits, so the doubles
  next to \<open>x\<close> are \<open>2\<close> to the power \<open>binade x - 52\<close> apart. Every sum the progress
  timer forms lies between 0.09 and 96.
\<close>

definition binade :: "real \<Rightarrow> int" where
  "binade x = \<lfloor>log 2 \<bar>x\<bar>\<rfloor>"

definition round_ties_even :: "real \<Rightarrow> int" where
  "round_ties_even y =
    (if y - of_int \<lfloor>y\<rfloor> < 1 / 2 then \<lfloor>y\<rfloor>
     else if y - of_int \<lfloor>y\<rfloor> > 1 / 2 then \<lfloor>y\<rfloor> + 1
     else if even \<lfloor>y\<rfloor> then \<lfloor>y\<rfloor> else \<lfloor>y\<rfloor> + 1)"

definition to_double :: "real \<Rightarrow> real" where
  "to_double x =
    (if x = 0 then 0
     else of_int (round_ties_even (x / 2 powr of_int (binade x - 52)))
            * 2 powr of_int (binade x - 52))"

subsection \<open>State\<close>

text \<open>
  A \<^verbatim>\<open>process-dropped-files\<close> message handed to \<^verbatim>\<open>ipc.send\<close>: \<^verbatim>\<open>paths\<close>,
  \<^verbatim>\<open>formatPreference\<close> and \<^verbatim>\<open>selectedTemplate\<close>.
\<close>

datatype ipc_message = Process_dropped_files "string list" string "string option"

text \<open>\<^verbatim>\<open>PipelineResult\<close>, as far as the \<^verbatim>\<open>ebook-generated\<close> listener reads it at once.\<close>

record pipeline_result =
  r_success :: bool
  r_filePath :: "string option"
  r_format :: "string option"
  r_formatName :: "string option"
  r_additionalFiles :: "string list option"
  r_error :: "string option"

datatype status_text =
    St_ready
  | St_no_files_to_process
  | St_no_valid_paths
  | St_path_restricted
  | St_processing nat
  | St_created "string option" string "string option"
  | St_had_issues string
  | St_error string
  | St_other string

datatype preview =
    Pv_placeholder
  | Pv_success pipeline_result "classification option" "string option"
  | Pv_issues string "string option"
  | Pv_other string

text \<open>
  The interval started by \<^verbatim>\<open>startProgressAnimation\<close> with the variables its callback
  closes over. \<^verbatim>\<open>cleared\<close> holds after \<^verbatim>\<open>clearInterval\<close> on a handle that
  \<^verbatim>\<open>progressInterval\<close> still refers to.
\<close>

record animation =
  progress :: real
  lastUpdateTime :: int
  cleared :: bool

text \<open>
  An element that a handler looks up and tests before use is an option: \<^verbatim>\<open>None\<close> when
  the page has no such element. Elements that are dereferenced without a test exist.
  Of a button the \<^verbatim>\<open>disabled\<close> flag is kept, of the progress bar and the spinner the
  percentage written last.
\<close>

record ui =
  uploadedFiles :: "string list"
  generatedFilePath :: "string option"
  additionalGeneratedFiles :: "string list"
  generatedFileFormat :: string
  isProcessing :: bool
  detectedNewsletterInfo :: "classification option"
  selectedTemplate :: "string option"
  selectedFormat :: string
  progressInterval :: "animation option"
  format_checked :: "string option"
  dropZone_classList :: "string set"
  dropZone_pointerEvents :: string
  uploadContent_display :: "string option"
  processingContent_display :: "string option"
  successContent_display :: "string option"
  progressBar :: "real option"
  spinner :: "real option"
  processingStatus :: "string option"
  previewPanel :: preview
  statusMessage :: "status_text \<times> string"
  generateKindleBtn_disabled :: "bool option"
  openFileBtn_disabled :: bool
  showInFolderBtn_disabled :: bool
  openSendToKindleBtn_disabled :: "bool option"
  templateDialog_classList :: "string set"
  templateSelector_value :: string
  sent :: "ipc_message list"

text \<open>Lines 33 to 41, on a page that has every element the script looks up.\<close>

definition initial_ui :: ui where
  "initial_ui =
    \<lparr> uploadedFiles = [], generatedFilePath = None, additionalGeneratedFiles = [],
      generatedFileFormat = ''epub'', isProcessing = False, detectedNewsletterInfo = None,
      selectedTemplate = None, selectedFormat = ''auto'', progressInterval = None,
      format_checked = Some ''auto'',
      dropZone_classList = {}, dropZone_pointerEvents = ''auto'',
      uploadContent_display = Some ''flex'', processingContent_display = Some ''none'',
      successContent_display = Some ''none'',
      progressBar = Some 0, spinner = Some 0, processingStatus = Some [],
      previewPanel = Pv_placeholder, statusMessage = (St_ready, ''info''),
      generateKindleBtn_disabled = Some True, openFileBtn_disabled = True,
      showInFolderBtn_disabled = True, openSendToKindleBtn_disabled = Some True,
      templateDialog_classList = {}, templateSelector_value = ''auto'',
      sent = [] \<rparr>"

definition showStatus :: "status_text \<Rightarrow> string \<Rightarrow> ui \<Rightarrow> ui" where
  "showStatus msg type s = s\<lparr> statusMessage := (msg, type) \<rparr>"

definition updateGenerateButtonState :: "bool \<Rightarrow> ui \<Rightarrow> ui" where
  "updateGenerateButtonState enabled s =
    s\<lparr> generateKindleBtn_disabled := map_option (\<lambda>d. \<not> enabled) (generateKindleBtn_disabled s) \<rparr>"

text \<open>Lines 612 to 641.\<close>

definition updateProgressDisplay :: "real \<Rightarrow> string \<Rightarrow> ui \<Rightarrow> ui" where
  "updateProgressDisplay percentage status s =
    (let s1 = s\<lparr> spinner := map_option (\<lambda>p. percentage) (spinner s),
                  progressBar := map_option (\<lambda>p. percentage) (progressBar s),
                  processingStatus :=
                    (if status \<noteq> [] then map_option (\<lambda>t. status) (processingStatus s)
                     else processingStatus s) \<rparr>
     in if percentage < 100
        then s1\<lparr> dropZone_classList := insert ''processing'' (dropZone_classList s1),
                 isProcessing := True \<rparr>
        else s1)"

text \<open>Lines 958 to 971.\<close>

definition getStatusForProgress :: "real \<Rightarrow> string" where
  "getStatusForProgress p =
    (if p < 20 then ''Initializing...''
     else if p \<ge> 20 \<and> p < 40 then ''Parsing email content...''
     else if p \<ge> 40 \<and> p < 60 then ''Formatting content for e-reader...''
     else if p \<ge> 60 \<and> p < 80 then ''Generating ebook files...''
     else if p \<ge> 80 then ''Finalizing your ebook...''
     else ''Processing...'')"

text \<open>\<^verbatim>\<open>Math.round\<close>: the nearest integer, a half rounded up.\<close>

definition Math_round :: "real \<Rightarrow> real" where
  "Math_round x = of_int \<lfloor>x + 1 / 2\<rfloor>"

text \<open>
  Lines 918 to 927: the step chosen for the current value, each the double its literal
  denotes.
\<close>

definition increment :: "real \<Rightarrow> real" where
  "increment p =
    (if p > 30 \<and> p < 60 then to_double 0.3
     else if p \<ge> 60 \<and> p < 80 then to_double 0.2
     else if p \<ge> 80 then to_double 0.1
     else to_double 0.5)"

text \<open>
  Lines 875 to 941, called at time \<^verbatim>\<open>now\<close> (milliseconds). The two-minute watchdog
  of lines 943 to 954 only recolours the bar and rewrites the status text; it is left out.
\<close>

definition startProgressAnimation :: "int \<Rightarrow> ui \<Rightarrow> ui" where
  "startProgressAnimation now s =
    (let s1 = s\<lparr> progressInterval := map_option (\<lambda>a. a\<lparr> cleared := True \<rparr>) (progressInterval s) \<rparr>
     in if progressBar s1 = None \<and> spinner s1 = None then s1
        else s1\<lparr> progressBar := map_option (\<lambda>p. 0) (progressBar s1),
                 spinner := map_option (\<lambda>p. 0) (spinner s1),
                 progressInterval := Some \<lparr> progress = 0, lastUpdateTime = now, cleared = False \<rparr> \<rparr>)"

text \<open>
  One run of the interval callback (lines 905 to 940) at time \<^verbatim>\<open>currentTime\<close>. A
  cleared interval does not fire. \<^verbatim>\<open>progress += increment\<close> stores the rounded sum.
\<close>

definition interval_tick :: "int \<Rightarrow> ui \<Rightarrow> ui" where
  "interval_tick currentTime s =
    (case progressInterval s of
       None \<Rightarrow> s
     | Some a \<Rightarrow>
        if cleared a then s
        else if \<not> isProcessing s then s\<lparr> progressInterval := None \<rparr>
        else
          let timeSinceLastUpdate = currentTime - lastUpdateTime a;
              a1 = (if timeSinceLastUpdate \<ge> 100
                    then a\<lparr> progress := to_double (progress a + increment (progress a)),
                            lastUpdateTime := currentTime \<rparr>
                    else a);
              a2 = a1\<lparr> progress := min (progress a1) 95 \<rparr>
          in updateProgressDisplay (Math_round (progress a2)) (getStatusForProgress (progress a2))
               (s\<lparr> progressInterval := Some a2 \<rparr>))"

text \<open>The states after each of a sequence of runs of the interval callback.\<close>

fun ticks :: "int list \<Rightarrow> ui \<Rightarrow> ui list" where
  "ticks [] s = []"
| "ticks (t # ts) s = interval_tick t s # ticks ts (interval_tick t s)"

text \<open>Lines 365 to 392.\<close>

definition processSelectedFiles :: "int \<Rightarrow> ui \<Rightarrow> ui" where
  "processSelectedFiles now s =
    (if length (uploadedFiles s) = 0 then showStatus St_no_files_to_process ''error'' s
     else
       let s1 = updateGenerateButtonState False
                  (s\<lparr> isProcessing := True,
                      dropZone_classList := insert ''processing'' (dropZone_classList s) \<rparr>);
           formatPreference =
             (if selectedFormat s1 \<noteq> [] then selectedFormat s1
              else case format_checked s1 of
                     Some v \<Rightarrow> if v \<noteq> [] then v else ''auto''
                   | None \<Rightarrow> ''auto'');
           s2 = s1\<lparr> sent := sent s1 @
                  [Process_dropped_files (uploadedFiles s1) formatPreference (selectedTemplate s1)] \<rparr>
       in startProgressAnimation now
            (showStatus (St_processing (length (uploadedFiles s2))) ''info'' s2))"

text \<open>
  An entry of the list handed to \<^verbatim>\<open>handleFileDrop\<close>: an object with its \<^verbatim>\<open>path\<close> and
  \<^verbatim>\<open>name\<close> (if any), or a string.
\<close>

datatype dropped = File_object "string option" "string option" | Path_string string

text \<open>The body of the \<^verbatim>\<open>forEach\<close> of lines 464 to 491, on the pair of paths and state.\<close>

fun collect_path :: "dropped \<Rightarrow> string list \<times> ui \<Rightarrow> string list \<times> ui" where
  "collect_path (Path_string file) (filePaths, s) = (filePaths @ [file], s)"
| "collect_path (File_object path name) (filePaths, s) =
    (case path of
       Some p \<Rightarrow>
         if p \<noteq> [] then (filePaths @ [p], s)
         else (case name of
                 Some n \<Rightarrow> if n \<noteq> [] then (filePaths, showStatus St_path_restricted ''info'' s)
                           else (filePaths, s)
               | None \<Rightarrow> (filePaths, s))
     | None \<Rightarrow>
         (case name of
            Some n \<Rightarrow> if n \<noteq> [] then (filePaths, showStatus St_path_restricted ''info'' s)
                      else (filePaths, s)
          | None \<Rightarrow> (filePaths, s)))"

text \<open>Lines 451 to 519.\<close>

definition handleFileDrop :: "dropped list \<Rightarrow> int \<Rightarrow> ui \<Rightarrow> ui" where
  "handleFileDrop files now s =
    (if length files = 0 then showStatus St_no_files_to_process ''error'' s
     else
       let (filePaths, s1) = fold collect_path files ([], s)
       in if length filePaths = 0 then showStatus St_no_valid_paths ''error'' s1
          else
            let s2 = s1\<lparr> uploadedFiles := filePaths \<rparr>;
                s3 = s2\<lparr> sent := sent s2 @
                       [Process_dropped_files filePaths
                          (if selectedFormat s2 \<noteq> [] then selectedFormat s2 else ''auto'')
                          (case selectedTemplate s2 of
                             Some t \<Rightarrow> if t \<noteq> [] then Some t else None
                           | None \<Rightarrow> None)] \<rparr>;
                s4 = s3\<lparr> dropZone_classList := insert ''processing'' (dropZone_classList s3),
                         isProcessing := True \<rparr>
            in startProgressAnimation now
                 (showStatus (St_processing (length filePaths)) ''info''
                    (updateGenerateButtonState False s4)))"

text \<open>The \<^verbatim>\<open>drop\<close> listener of the drop zone, lines 595 to 601.\<close>

definition on_drop :: "dropped list \<Rightarrow> int \<Rightarrow> ui \<Rightarrow> ui" where
  "on_drop files now s =
    handleFileDrop files now (s\<lparr> dropZone_classList := dropZone_classList s - {''drag-over''} \<rparr>)"

text \<open>The \<^verbatim>\<open>click\<close> listener of the generate button, lines 235 to 239.\<close>

definition on_generate_click :: "int \<Rightarrow> ui \<Rightarrow> ui" where
  "on_generate_click now s =
    (if length (uploadedFiles s) > 0 \<and> \<not> isProcessing s then processSelectedFiles now s else s)"

text \<open>
  The \<^verbatim>\<open>click\<close> listeners of the template dialog, lines 259 to 284: confirm and cancel
  both go on to \<^verbatim>\<open>processSelectedFiles\<close>.
\<close>

definition on_template_confirm :: "int \<Rightarrow> ui \<Rightarrow> ui" where
  "on_template_confirm now s =
    (let selectedTemplateValue = templateSelector_value s
     in processSelectedFiles now
          (s\<lparr> selectedTemplate :=
                 (if selectedTemplateValue = ''auto'' then None else Some selectedTemplateValue),
               templateDialog_classList := templateDialog_classList s - {''active''} \<rparr>))"

definition on_template_cancel :: "int \<Rightarrow> ui \<Rightarrow> ui" where
  "on_template_cancel now s =
    processSelectedFiles now
      (s\<lparr> templateSelector_value := ''auto'',
           selectedTemplate := None,
           templateDialog_classList := templateDialog_classList s - {''active''} \<rparr>)"

text \<open>The \<^verbatim>\<open>change\<close> listener of a format option, lines 245 to 253, once \<^verbatim>\<open>v\<close> is checked.\<close>

definition on_format_change :: "string \<Rightarrow> ui \<Rightarrow> ui" where
  "on_format_change v s =
    (let s1 = s\<lparr> format_checked := Some v,
                  selectedFormat := (if v \<noteq> [] then v else ''auto'') \<rparr>
     in if length (uploadedFiles s1) > 0 then updateGenerateButtonState True s1 else s1)"

text \<open>
  The \<^verbatim>\<open>ebook-generated\<close> listener, lines 71 to 168. The button captions, the preview
  of the mail that a timeout shows 100 ms later and the listener of the retry button are
  left out.
\<close>

definition on_ebook_generated :: "pipeline_result \<Rightarrow> ui \<Rightarrow> ui" where
  "on_ebook_generated result s =
    (let s1 = s\<lparr> isProcessing := False,
                  dropZone_classList := dropZone_classList s - {''processing''},
                  progressInterval := None \<rparr>;
         s2 = updateProgressDisplay 100 (if r_success result then ''Complete'' else ''Failed'') s1;
         s3 =
          (if r_success result then
             let format = (case r_format result of
                             Some f \<Rightarrow> if f \<noteq> [] then f else ''epub'' | None \<Rightarrow> ''epub'');
                 s4 = s2\<lparr> generatedFilePath := r_filePath result,
                          generatedFileFormat := format,
                          additionalGeneratedFiles :=
                            (case r_additionalFiles result of Some fs \<Rightarrow> fs | None \<Rightarrow> []) \<rparr>;
                 s5 = showStatus (St_created (r_formatName result) format (r_filePath result))
                        ''success'' s4;
                 s6 = s5\<lparr> openFileBtn_disabled := False,
                          showInFolderBtn_disabled := False,
                          openSendToKindleBtn_disabled :=
                            map_option (\<lambda>d. False) (openSendToKindleBtn_disabled s5) \<rparr>
             in s6\<lparr> previewPanel :=
                      Pv_success result (detectedNewsletterInfo s6) (selectedTemplate s6),
                    dropZone_classList := insert ''processed'' (dropZone_classList s6) \<rparr>
           else
             let errorMessage = (case r_error result of
                                   Some e \<Rightarrow> if e \<noteq> [] then e else ''Unknown error occurred''
                                 | None \<Rightarrow> ''Unknown error occurred'');
                 s4 = (showStatus (St_had_issues errorMessage) ''error'' s2)
                        \<lparr> previewPanel := Pv_issues errorMessage (r_filePath result) \<rparr>
             in case r_filePath result of
                  Some fp \<Rightarrow>
                    if fp \<noteq> [] then
                      s4\<lparr> generatedFilePath := Some fp,
                          generatedFileFormat := ''epub'',
                          openFileBtn_disabled := False,
                          showInFolderBtn_disabled := False,
                          openSendToKindleBtn_disabled :=
                            map_option (\<lambda>d. False) (openSendToKindleBtn_disabled s4) \<rparr>
                    else s4
                | None \<Rightarrow> s4)
     in updateGenerateButtonState (length (uploadedFiles s3) > 0) s3)"

text \<open>The \<^verbatim>\<open>progress-update\<close> listener, lines 194 to 197.\<close>

definition on_progress_update :: "real \<Rightarrow> string \<Rightarrow> ui \<Rightarrow> ui" where
  "on_progress_update percentage status s = updateProgressDisplay percentage status s"

text \<open>The \<^verbatim>\<open>error\<close> listener, lines 199 to 201.\<close>

definition on_error :: "string \<Rightarrow> ui \<Rightarrow> ui" where
  "on_error msg s = showStatus (St_error msg) ''error'' s"

text \<open>Lines 974 to 1012.\<close>

definition clearContent :: "bool \<Rightarrow> ui \<Rightarrow> ui" where
  "clearContent updateUI s =
    (let s1 = s\<lparr> uploadedFiles := [],
                  generatedFilePath := None,
                  additionalGeneratedFiles := [],
                  detectedNewsletterInfo := None,
                  selectedTemplate := None,
                  isProcessing := False,
                  progressInterval := None,
                  dropZone_classList :=
                    dropZone_classList s - {''processing'', ''processed'', ''drag-over''},
                  uploadContent_display := map_option (\<lambda>d. ''flex'') (uploadContent_display s),
                  processingContent_display :=
                    map_option (\<lambda>d. ''none'') (processingContent_display s),
                  successContent_display := map_option (\<lambda>d. ''none'') (successContent_display s) \<rparr>;
         s2 = (if updateUI then
                 updateGenerateButtonState False
                   ((showStatus St_ready ''info'' (s1\<lparr> previewPanel := Pv_placeholder \<rparr>))
                      \<lparr> openFileBtn_disabled := True,
                        showInFolderBtn_disabled := True,
                        openSendToKindleBtn_disabled :=
                          map_option (\<lambda>d. True) (openSendToKindleBtn_disabled s1) \<rparr>)
               else s1)
     in s2\<lparr> dropZone_pointerEvents := ''auto'' \<rparr>)"

text \<open>
  The \<^verbatim>\<open>click\<close> listener of the clear button (line 207): \<^verbatim>\<open>clearContent\<close> receives the
  event object as \<^verbatim>\<open>updateUI\<close>, which is truthy.
\<close>

definition on_clear_click :: "ui \<Rightarrow> ui" where
  "on_clear_click s = clearContent True s"

text \<open>
  The animation is running and every display the page has, the progress bar and the
  spinner, shows its rounded value: what holds from \<^verbatim>\<open>startProgressAnimation\<close> on for
  as long as only the interval callback writes the displays.
\<close>

definition animating :: "ui \<Rightarrow> bool" where
  "animating s =
    (case progressInterval s of
       None \<Rightarrow> False
     | Some a \<Rightarrow> \<not> cleared a \<and> isProcessing s \<and> 0 \<le> progress a \<and> progress a \<le> 95
                 \<and> progressBar s = map_option (\<lambda>p. Math_round (progress a)) (progressBar s)
                 \<and> spinner s = map_option (\<lambda>p. Math_round (progress a)) (spinner s))"

text \<open>
  Three states of a session: one file has just been dropped on the fresh page at time 0;
  the backend has then reported success.
\<close>

definition after_drop :: ui where
  "after_drop = on_drop [File_object (Some ''/tmp/a.eml'') (Some ''a.eml'')] 0 initial_ui"

definition epub_result :: pipeline_result where
  "epub_result =
    \<lparr> r_success = True, r_filePath = Some ''/x/out.epub'', r_format = Some ''epub'',
      r_formatName = None, r_additionalFiles = None, r_error = None \<rparr>"

definition after_completion :: ui where
  "after_completion = on_ebook_generated epub_result after_drop"

text \<open>The state 61 ticks of 0.5 after the drop: the animation stands at 30.5.\<close>

definition at_30_5 :: ui where
  "at_30_5 = after_drop
     \<lparr> progressInterval := Some \<lparr> progress = 61 / 2, lastUpdateTime = 6100, cleared = False \<rparr>,
       progressBar := Some 31, spinner := Some 31,
       processingStatus := Some ''Parsing email content...'' \<rparr>"

section \<open>Properties of the path sanitizer\<close>

lemma typeof_string: "(typeof v = ''string'') = is_string v"
  by (cases v) simp_all

text \<open>
  C1, as stated: for every input value the first stage of \<^verbatim>\<open>handleMailDrop\<close> yields a
  sequence of strings. It fails on an array that holds a number: the array is returned
  as it is.
\<close>

theorem sanitizedPaths_total_counterexample:
  "\<not> list_all is_string (sanitizedPaths (JArr [JNum 1]))"
  by (simp add: sanitizedPaths_def)

text \<open>
  C1, amended: the first stage is a total function of the input; an array comes back
  unchanged, a string that is not blank yields its trimmed value alone, an object whose
  \<^verbatim>\<open>paths\<close> is an array yields that array, any other object yields those of its values
  that are strings and not blank, every other value yields the empty sequence; and the
  result holds strings only whenever the array taken over from the input (the input
  itself or its \<^verbatim>\<open>paths\<close>) holds strings only.
\<close>

theorem sanitizedPaths_shapes:
  "sanitizedPaths (JArr xs) = xs
   \<and> (trim s \<noteq> [] \<longrightarrow> sanitizedPaths (JStr s) = [JStr (trim s)])
   \<and> (map_of props ''paths'' = Some (JArr ps) \<longrightarrow> sanitizedPaths (JObj props) = ps)
   \<and> ((\<forall>ps. map_of obj ''paths'' \<noteq> Some (JArr ps)) \<longrightarrow>
        sanitizedPaths (JObj obj) =
          filter (\<lambda>p. \<exists>t. p = JStr t \<and> trim t \<noteq> []) (map snd obj))
   \<and> ((\<forall>xs. v \<noteq> JArr xs) \<and> (\<forall>ps. v \<noteq> JObj ps) \<and> (\<forall>t. v = JStr t \<longrightarrow> trim t = []) \<longrightarrow>
        sanitizedPaths v = [])
   \<and> ((\<forall>xs. w = JArr xs \<or> (\<exists>ps. w = JObj ps \<and> map_of ps ''paths'' = Some (JArr xs)) \<longrightarrow>
            list_all is_string xs) \<longrightarrow>
        list_all is_string (sanitizedPaths w))"
proof (intro conjI impI)
  show "sanitizedPaths (JArr xs) = xs" by (simp add: sanitizedPaths_def)
next
  assume "trim s \<noteq> []"
  moreover from this have "s \<noteq> []" by (auto simp: trim_def)
  ultimately show "sanitizedPaths (JStr s) = [JStr (trim s)]"
    by (simp add: sanitizedPaths_def)
next
  assume "map_of props ''paths'' = Some (JArr ps)"
  then show "sanitizedPaths (JObj props) = ps" by (simp add: sanitizedPaths_def)
next
  assume a: "\<forall>ps. map_of obj ''paths'' \<noteq> Some (JArr ps)"
  have "\<not> Array_isArray (property (JObj obj) ''paths'')"
    using a by (cases "map_of obj ''paths''"; simp) (rename_tac w, case_tac w; simp)
  moreover have "(\<lambda>p. typeof p = ''string'' \<and> trimmed p \<noteq> JStr '''')
                 = (\<lambda>p. \<exists>t. p = JStr t \<and> trim t \<noteq> [])"
    by (rule ext, case_tac p) simp_all
  ultimately show "sanitizedPaths (JObj obj) =
      filter (\<lambda>p. \<exists>t. p = JStr t \<and> trim t \<noteq> []) (map snd obj)"
    by (simp add: sanitizedPaths_def)
next
  assume "(\<forall>xs. v \<noteq> JArr xs) \<and> (\<forall>ps. v \<noteq> JObj ps) \<and> (\<forall>t. v = JStr t \<longrightarrow> trim t = [])"
  then show "sanitizedPaths v = []"
    by (cases v) (simp_all add: sanitizedPaths_def)
next
  assume a: "\<forall>xs. w = JArr xs \<or> (\<exists>ps. w = JObj ps \<and> map_of ps ''paths'' = Some (JArr xs)) \<longrightarrow>
            list_all is_string xs"
  show "list_all is_string (sanitizedPaths w)"
  proof (cases w)
    case (JArr xs)
    with a show ?thesis by (simp add: sanitizedPaths_def)
  next
    case (JObj ps)
    show ?thesis
    proof (cases "\<exists>xs. map_of ps ''paths'' = Some (JArr xs)")
      case True
      then obtain xs where "map_of ps ''paths'' = Some (JArr xs)" by blast
      with a JObj show ?thesis by (simp add: sanitizedPaths_def)
    next
      case False
      have "\<not> Array_isArray (property (JObj ps) ''paths'')"
        using False by (cases "map_of ps ''paths''"; simp) (rename_tac w, case_tac w; simp)
      with JObj show ?thesis
        by (simp add: sanitizedPaths_def list_all_iff typeof_string)
    qed
  qed (simp_all add: sanitizedPaths_def)
qed

text \<open>
  C1, amended, on one input of each shape.
\<close>

theorem sanitizedPaths_shapes_witness:
  "sanitizedPaths (JArr [JNum 1, JStr ''a'']) = [JNum 1, JStr ''a'']
   \<and> sanitizedPaths (JStr '' /tmp/a.eml '') = [JStr ''/tmp/a.eml'']
   \<and> sanitizedPaths (JObj [(''paths'', JArr [JStr ''x''])]) = [JStr ''x'']
   \<and> sanitizedPaths (JObj [(''0'', JStr ''x''), (''k'', JNum 3), (''b'', JStr '' '')]) = [JStr ''x'']
   \<and> sanitizedPaths JNull = []
   \<and> list_all is_string (sanitizedPaths (JObj [(''paths'', JArr [JStr ''x''])]))"
  using sanitizedPaths_shapes [where xs = "[JNum 1, JStr ''a'']" and s = "'' /tmp/a.eml ''"
      and props = "[(''paths'', JArr [JStr ''x''])]" and ps = "[JStr ''x'']"
      and obj = "[(''0'', JStr ''x''), (''k'', JNum 3), (''b'', JStr '' '')]" and v = JNull
      and w = "JObj [(''paths'', JArr [JStr ''x''])]"]
  by (simp add: trim_def is_white_def)

text \<open>
  C2: on a sequence of paths the validation stage returns a subsequence of its input in
  which every existing path occurs as often as in the input and no other path occurs:
  the input with exactly the non-existing paths left out, in the original order.
\<close>

theorem handleMailDrop_existing_subsequence:
  "subseq (handleMailDrop existsSync (JArr ps)) ps
   \<and> (\<forall>p. count_list (handleMailDrop existsSync (JArr ps)) p
          = (if existsSync p then count_list ps p else 0))
   \<and> handleMailDrop existsSync (JArr ps) = filter existsSync ps"
proof -
  have eq: "handleMailDrop existsSync (JArr ps) = filter existsSync ps"
    by (simp add: handleMailDrop_def sanitizedPaths_def)
  have cnt: "count_list (filter existsSync ps) p = (if existsSync p then count_list ps p else 0)"
    for p by (induction ps) auto
  show ?thesis unfolding eq using cnt by simp
qed

text \<open>
  C2 on the scenario of the specification: of two dropped paths only the first exists.
\<close>

theorem handleMailDrop_existing_subsequence_witness:
  "handleMailDrop (\<lambda>p. p = JStr ''/tmp/a.eml'')
     (JArr [JStr ''/tmp/a.eml'', JStr ''/tmp/missing.eml'']) = [JStr ''/tmp/a.eml'']"
  using handleMailDrop_existing_subsequence [of "\<lambda>p. p = JStr ''/tmp/a.eml''"
      "[JStr ''/tmp/a.eml'', JStr ''/tmp/missing.eml'']"]
  by simp

section \<open>Properties of the process-dropped-files handler\<close>

lemma valid_filter_eq:
  assumes "\<not> existsSync (JStr [])"
  shows "filter (\<lambda>filePath. truthy filePath \<and> typeof filePath = ''string'' \<and> existsSync filePath) xs
         = filter (\<lambda>v. is_string v \<and> existsSync v) xs"
proof (rule filter_cong [OF refl])
  fix x
  show "(truthy x \<and> typeof x = ''string'' \<and> existsSync x) = (is_string x \<and> existsSync x)"
    using assms by (cases x) auto
qed

text \<open>
  C8: the handler sends exactly one reply. It is the error message when no entry of the
  payload's \<^verbatim>\<open>paths\<close> is a string naming an existing file (which covers a payload without
  the field and an empty sequence), and otherwise \<^verbatim>\<open>file-dropped\<close> with the string
  entries that exist, in their order. The empty path names no file.
\<close>

theorem process_dropped_files_single_reply:
  assumes "\<not> existsSync (JStr [])"
  shows "length (process_dropped_files existsSync data) = 1
    \<and> process_dropped_files existsSync data =
        (if filter (\<lambda>v. is_string v \<and> existsSync v) (paths_entries data) = []
         then [Send_error ''No valid files found for processing.'']
         else [Send_file_dropped (filter (\<lambda>v. is_string v \<and> existsSync v) (paths_entries data))])"
proof -
  let ?err = "[Send_error ''No valid files found for processing.'']"
  let ?ok = "\<lambda>v. is_string v \<and> existsSync v"
  have main: "process_dropped_files existsSync data =
        (if filter ?ok (paths_entries data) = [] then ?err
         else [Send_file_dropped (filter ?ok (paths_entries data))])"
  proof (cases data)
    case (JObj props)
    show ?thesis
    proof (cases "map_of props ''paths''")
      case None
      with JObj show ?thesis by (simp add: process_dropped_files_def)
    next
      case (Some p)
      show ?thesis
      proof (cases p)
        case (JArr xs)
        with JObj Some show ?thesis
          by (simp add: process_dropped_files_def Let_def valid_filter_eq [of existsSync, OF assms])
      next
        case (JStr s)
        with JObj Some assms show ?thesis
          by (auto simp: process_dropped_files_def Let_def)
      qed (use JObj Some in \<open>simp_all add: process_dropped_files_def Let_def\<close>)
    qed
  qed (simp_all add: process_dropped_files_def)
  show ?thesis unfolding main by simp
qed

text \<open>
  C8 on a payload with one existing path, a number and a missing path.
\<close>

theorem process_dropped_files_single_reply_witness:
  "\<not> (\<lambda>p. p = JStr ''/tmp/a.eml'') (JStr [])
   \<and> process_dropped_files (\<lambda>p. p = JStr ''/tmp/a.eml'')
       (JObj [(''paths'', JArr [JStr ''/tmp/a.eml'', JNum 4, JStr ''/tmp/missing.eml'']),
              (''formatPreference'', JStr ''auto''), (''selectedTemplate'', JNull)])
     = [Send_file_dropped [JStr ''/tmp/a.eml'']]"
  using process_dropped_files_single_reply [of "\<lambda>p. p = JStr ''/tmp/a.eml''"
     "JObj [(''paths'', JArr [JStr ''/tmp/a.eml'', JNum 4, JStr ''/tmp/missing.eml'']),
              (''formatPreference'', JStr ''auto''), (''selectedTemplate'', JNull)]"]
  by simp

section \<open>Properties of the content extractor\<close>

lemma classify_attachments: "env_attachments (classify P r) = env_attachments r"
  by (simp add: classify_def split: option.splits sum.splits)

lemma parseEmlFile_missing:
  "\<not> fs_existsSync P p \<Longrightarrow> parseEmlFile P p = Inl (Error (''File not found: '' @ p))"
  by (simp add: parseEmlFile_def)

lemma parseEmlFile_read_error:
  "fs_existsSync P p \<Longrightarrow> fs_readFileSync P p = Inl e \<Longrightarrow>
   parseEmlFile P p = Inr (error_result P p e)"
  by (simp add: parseEmlFile_def)

lemma parseEmlFile_parse_error:
  "fs_existsSync P p \<Longrightarrow> fs_readFileSync P p = Inr c \<Longrightarrow> simpleParser P c = Inl e \<Longrightarrow>
   parseEmlFile P p = Inr (error_result P p e)"
  by (simp add: parseEmlFile_def)

lemma parseEmlFile_parsed:
  "fs_existsSync P p \<Longrightarrow> fs_readFileSync P p = Inr c \<Longrightarrow> simpleParser P c = Inr m \<Longrightarrow>
   parseEmlFile P p = Inr (classify P (basic_result P p m))"
  by (simp add: parseEmlFile_def)

lemma parseEmlFile_cases:
  assumes "fs_existsSync P p"
  obtains (read_error) e where "fs_readFileSync P p = Inl e"
      "parseEmlFile P p = Inr (error_result P p e)"
    | (parse_error) c e where "fs_readFileSync P p = Inr c" "simpleParser P c = Inl e"
      "parseEmlFile P p = Inr (error_result P p e)"
    | (parsed) c m where "fs_readFileSync P p = Inr c" "simpleParser P c = Inr m"
      "parseEmlFile P p = Inr (classify P (basic_result P p m))"
proof (cases "fs_readFileSync P p")
  case (Inl e)
  then show ?thesis using read_error parseEmlFile_read_error [OF assms] by blast
next
  case (Inr c)
  note rd = this
  show ?thesis
  proof (cases "simpleParser P c")
    case (Inl e)
    from parse_error [OF rd Inl parseEmlFile_parse_error [OF assms rd Inl]]
    show ?thesis .
  next
    case (Inr m)
    from parsed [OF rd Inr parseEmlFile_parsed [OF assms rd Inr]]
    show ?thesis .
  qed
qed

lemma error_result_fields:
  "env_text (error_result P p e) = ''Error parsing file: '' @ message e"
  "env_html (error_result P p e) = ''<p>Error parsing file: '' @ message e @ ''</p>''"
  "env_subject (error_result P p e) = path_basename P p ''.eml''"
  "env_newsletterInfo (error_result P p e)
     = \<lparr> nl_type = ''generic'', nl_name = ''Newsletter'', nl_confidence = 0 \<rparr>"
  "env_attachments (error_result P p e) = None"
  by (simp_all add: error_result_def)

lemma basic_result_attachments:
  "env_attachments (basic_result P p m)
     = Some (case p_attachments m of Some as \<Rightarrow> as | None \<Rightarrow> [])"
  by (simp add: basic_result_def)

text \<open>
  C3: on a path that exists \<^verbatim>\<open>parseEmlFile\<close> always resolves to an envelope; when reading
  the file or parsing its content fails with an error, the envelope's \<^verbatim>\<open>text\<close> and
  \<^verbatim>\<open>html\<close> carry the error's message, its \<^verbatim>\<open>subject\<close> is the base name of the file and
  its \<^verbatim>\<open>newsletterInfo\<close> is the generic default; the function rejects only when the file
  does not exist, and then it does.
\<close>

theorem parseEmlFile_catches_parser_errors:
  "(fs_existsSync P p \<longrightarrow> (\<exists>env. parseEmlFile P p = Inr env))
   \<and> (fs_existsSync P p \<and>
        (fs_readFileSync P p = Inl e
         \<or> (\<exists>c. fs_readFileSync P p = Inr c \<and> simpleParser P c = Inl e)) \<longrightarrow>
        (\<exists>env. parseEmlFile P p = Inr env
           \<and> env_text env = ''Error parsing file: '' @ message e
           \<and> env_html env = ''<p>Error parsing file: '' @ message e @ ''</p>''
           \<and> env_subject env = path_basename P p ''.eml''
           \<and> env_newsletterInfo env
               = \<lparr> nl_type = ''generic'', nl_name = ''Newsletter'', nl_confidence = 0 \<rparr>))
   \<and> (\<forall>err. parseEmlFile P p = Inl err \<longrightarrow>
         \<not> fs_existsSync P p \<and> err = Error (''File not found: '' @ p))
   \<and> (\<not> fs_existsSync P p \<longrightarrow> parseEmlFile P p = Inl (Error (''File not found: '' @ p)))"
proof (intro conjI impI allI)
  assume "fs_existsSync P p"
  then show "\<exists>env. parseEmlFile P p = Inr env"
    by (cases rule: parseEmlFile_cases) blast+
next
  assume a: "fs_existsSync P p \<and>
        (fs_readFileSync P p = Inl e
         \<or> (\<exists>c. fs_readFileSync P p = Inr c \<and> simpleParser P c = Inl e))"
  then have "parseEmlFile P p = Inr (error_result P p e)"
    using parseEmlFile_read_error parseEmlFile_parse_error by blast
  then show "\<exists>env. parseEmlFile P p = Inr env
           \<and> env_text env = ''Error parsing file: '' @ message e
           \<and> env_html env = ''<p>Error parsing file: '' @ message e @ ''</p>''
           \<and> env_subject env = path_basename P p ''.eml''
           \<and> env_newsletterInfo env
               = \<lparr> nl_type = ''generic'', nl_name = ''Newsletter'', nl_confidence = 0 \<rparr>"
    by (simp add: error_result_fields)
next
  fix err assume a: "parseEmlFile P p = Inl err"
  show "\<not> fs_existsSync P p"
  proof
    assume "fs_existsSync P p"
    then show False using a by (cases rule: parseEmlFile_cases) simp_all
  qed
  then show "err = Error (''File not found: '' @ p)"
    using a parseEmlFile_missing [of P p] by simp
next
  assume "\<not> fs_existsSync P p"
  then show "parseEmlFile P p = Inl (Error (''File not found: '' @ p))"
    by (rule parseEmlFile_missing)
qed

lemma unreadable_disk_simps:
  "fs_existsSync unreadable_disk p"
  "fs_readFileSync unreadable_disk p = Inl (Error ''EACCES: permission denied'')"
  "path_basename unreadable_disk p ext = ''a''"
  "now_toUTCString unreadable_disk = ''Thu, 01 Jan 1970 00:00:00 GMT''"
  by (simp_all add: unreadable_disk_def)

lemma one_mail_disk_simps:
  "fs_existsSync one_mail_disk p = (p = ''/tmp/a.eml'')"
  "fs_readFileSync one_mail_disk ''/tmp/a.eml'' = Inr ''Subject: Hi''"
  "simpleParser one_mail_disk ''Subject: Hi'' =
     Inr \<lparr> p_subject = Some ''Hi'', p_from = None, p_text = None, p_html = None,
           p_date = None, p_attachments = None \<rparr>"
  "detectNewsletterType one_mail_disk = None"
  by (simp_all add: one_mail_disk_def)

text \<open>
  C3 on a file that cannot be read and on a path that does not exist.
\<close>

theorem parseEmlFile_catches_parser_errors_witness:
  "fs_existsSync unreadable_disk ''/tmp/a.eml''
   \<and> fs_readFileSync unreadable_disk ''/tmp/a.eml'' = Inl (Error ''EACCES: permission denied'')
   \<and> (\<exists>env. parseEmlFile unreadable_disk ''/tmp/a.eml'' = Inr env
         \<and> env_text env = ''Error parsing file: EACCES: permission denied''
         \<and> env_subject env = ''a'')
   \<and> \<not> fs_existsSync one_mail_disk ''/tmp/b.eml''
   \<and> parseEmlFile one_mail_disk ''/tmp/b.eml'' = Inl (Error ''File not found: /tmp/b.eml'')"
proof -
  let ?e = "Error ''EACCES: permission denied''"
  have ex: "fs_existsSync unreadable_disk ''/tmp/a.eml''"
    by (rule unreadable_disk_simps)
  have rd: "fs_readFileSync unreadable_disk ''/tmp/a.eml'' = Inl ?e"
    by (rule unreadable_disk_simps)
  from parseEmlFile_catches_parser_errors [of unreadable_disk "''/tmp/a.eml''" ?e] ex rd
  obtain env where env: "parseEmlFile unreadable_disk ''/tmp/a.eml'' = Inr env"
      "env_text env = ''Error parsing file: '' @ message ?e"
      "env_subject env = path_basename unreadable_disk ''/tmp/a.eml'' ''.eml''"
    by blast
  have etext: "env_text env = ''Error parsing file: EACCES: permission denied''"
    using env(2) by simp
  have esubj: "env_subject env = ''a''"
    using env(3) by (simp only: unreadable_disk_simps)
  have nex: "\<not> fs_existsSync one_mail_disk ''/tmp/b.eml''"
    by (simp add: one_mail_disk_simps)
  from parseEmlFile_catches_parser_errors [of one_mail_disk "''/tmp/b.eml''"] nex
  have "parseEmlFile one_mail_disk ''/tmp/b.eml'' = Inl (Error (''File not found: '' @ ''/tmp/b.eml''))"
    by blast
  then have miss: "parseEmlFile one_mail_disk ''/tmp/b.eml'' = Inl (Error ''File not found: /tmp/b.eml'')"
    by simp
  from ex rd env(1) etext esubj nex miss show ?thesis by blast
qed

text \<open>
  C7, as stated: every envelope has all seven fields. The envelope built when the file
  cannot be read has no \<^verbatim>\<open>attachments\<close>.
\<close>

theorem parseEmlFile_shape_counterexample:
  "parseEmlFile unreadable_disk ''/tmp/a.eml'' =
     Inr \<lparr> env_subject = ''a'', env_from = [],
           env_text = ''Error parsing file: EACCES: permission denied'',
           env_html = ''<p>Error parsing file: EACCES: permission denied</p>'',
           env_date = ''Thu, 01 Jan 1970 00:00:00 GMT'',
           env_attachments = None,
           env_newsletterInfo = \<lparr> nl_type = ''generic'', nl_name = ''Newsletter'', nl_confidence = 0 \<rparr> \<rparr>"
  by (simp add: parseEmlFile_read_error [of unreadable_disk _ "Error ''EACCES: permission denied''"]
        unreadable_disk_simps error_result_def)

text \<open>
  C7, amended: on a path that exists \<^verbatim>\<open>parseEmlFile\<close> resolves to an envelope (never to
  \<^verbatim>\<open>null\<close>) with \<^verbatim>\<open>subject\<close>, \<^verbatim>\<open>from\<close>, \<^verbatim>\<open>text\<close>, \<^verbatim>\<open>html\<close>, \<^verbatim>\<open>date\<close> and
  \<^verbatim>\<open>newsletterInfo\<close>; \<^verbatim>\<open>attachments\<close> is missing exactly from the envelopes built after
  a failure to read or parse, and on a successful parse it is the parser's list, or the
  empty list when the parser gave none.
\<close>

theorem parseEmlFile_shape:
  "(fs_existsSync P p \<longrightarrow> (\<exists>env. parseEmlFile P p = Inr env))
   \<and> (\<forall>env. parseEmlFile P p = Inr env \<longrightarrow>
        (env_attachments env = None) =
          ((\<exists>e. fs_readFileSync P p = Inl e)
           \<or> (\<exists>c e. fs_readFileSync P p = Inr c \<and> simpleParser P c = Inl e)))
   \<and> (\<forall>env c parsed. parseEmlFile P p = Inr env \<and> fs_readFileSync P p = Inr c
          \<and> simpleParser P c = Inr parsed \<longrightarrow>
        env_attachments env = Some (case p_attachments parsed of Some as \<Rightarrow> as | None \<Rightarrow> []))"
proof (intro conjI impI allI)
  assume "fs_existsSync P p"
  then show "\<exists>env. parseEmlFile P p = Inr env"
    by (cases rule: parseEmlFile_cases) blast+
next
  fix env assume a: "parseEmlFile P p = Inr env"
  have ex: "fs_existsSync P p"
    using a parseEmlFile_missing [of P p] by auto
  from ex show "(env_attachments env = None) =
          ((\<exists>e. fs_readFileSync P p = Inl e)
           \<or> (\<exists>c e. fs_readFileSync P p = Inr c \<and> simpleParser P c = Inl e))"
  proof (cases rule: parseEmlFile_cases)
    case (read_error e)
    with a show ?thesis by (auto simp: error_result_fields)
  next
    case (parse_error c e)
    with a show ?thesis by (auto simp: error_result_fields)
  next
    case (parsed c m)
    with a show ?thesis by (auto simp: classify_attachments basic_result_attachments)
  qed
next
  fix env c parsed
  assume a: "parseEmlFile P p = Inr env \<and> fs_readFileSync P p = Inr c
          \<and> simpleParser P c = Inr parsed"
  have ex: "fs_existsSync P p"
    using a parseEmlFile_missing [of P p] by auto
  from a parseEmlFile_parsed [OF ex, of c parsed]
  show "env_attachments env = Some (case p_attachments parsed of Some as \<Rightarrow> as | None \<Rightarrow> [])"
    by (auto simp: classify_attachments basic_result_attachments)
qed

text \<open>
  C7, amended, on a mail that parses.
\<close>

theorem parseEmlFile_shape_witness:
  "fs_existsSync one_mail_disk ''/tmp/a.eml''
   \<and> (\<exists>env. parseEmlFile one_mail_disk ''/tmp/a.eml'' = Inr env \<and> env_attachments env = Some [])"
proof -
  have ex: "fs_existsSync one_mail_disk ''/tmp/a.eml''"
    by (simp add: one_mail_disk_simps)
  note rd = one_mail_disk_simps(2) and pm = one_mail_disk_simps(3)
  from parseEmlFile_shape [of one_mail_disk "''/tmp/a.eml''"] ex
  obtain env where env: "parseEmlFile one_mail_disk ''/tmp/a.eml'' = Inr env"
    by blast
  from parseEmlFile_shape [of one_mail_disk "''/tmp/a.eml''"] env rd pm
  have "env_attachments env = Some (case p_attachments
          \<lparr> p_subject = Some ''Hi'', p_from = None, p_text = None, p_html = None,
            p_date = None, p_attachments = None \<rparr> of Some as \<Rightarrow> as | None \<Rightarrow> [])"
    by blast
  then have "env_attachments env = Some []" by simp
  with ex env show ?thesis by blast
qed

section \<open>Properties of the UI controller\<close>

lemma updateProgressDisplay_fields:
  "isProcessing (updateProgressDisplay p st s) = (p < 100 \<or> isProcessing s)"
  "dropZone_classList (updateProgressDisplay p st s)
     = (if p < 100 then insert ''processing'' (dropZone_classList s) else dropZone_classList s)"
  "progressBar (updateProgressDisplay p st s) = map_option (\<lambda>x. p) (progressBar s)"
  "spinner (updateProgressDisplay p st s) = map_option (\<lambda>x. p) (spinner s)"
  "sent (updateProgressDisplay p st s) = sent s"
  "progressInterval (updateProgressDisplay p st s) = progressInterval s"
  "uploadedFiles (updateProgressDisplay p st s) = uploadedFiles s"
  by (simp_all add: updateProgressDisplay_def Let_def)

text \<open>
  C10: a call of \<^verbatim>\<open>updateProgressDisplay\<close> with a percentage below 100, and so a
  \<^verbatim>\<open>progress-update\<close> event that carries one, sets \<^verbatim>\<open>isProcessing\<close>, puts the drop zone
  in its processing state and sends nothing to the backend, whatever the state was.
\<close>

theorem updateProgressDisplay_reenters_processing:
  "percentage < 100 \<longrightarrow>
     isProcessing (updateProgressDisplay percentage status s)
     \<and> ''processing'' \<in> dropZone_classList (updateProgressDisplay percentage status s)
     \<and> sent (updateProgressDisplay percentage status s) = sent s
     \<and> isProcessing (on_progress_update percentage status s)
     \<and> ''processing'' \<in> dropZone_classList (on_progress_update percentage status s)
     \<and> sent (on_progress_update percentage status s) = sent s"
  by (simp add: on_progress_update_def updateProgressDisplay_fields)

subsection \<open>Rounding to a double\<close>

lemma round_ties_even_error: "\<bar>of_int (round_ties_even y) - y\<bar> \<le> 1 / 2"
  unfolding round_ties_even_def by (auto split: if_splits)

lemma round_ties_even_of_int: "round_ties_even (of_int n) = n"
  by (simp add: round_ties_even_def)

lemma binade_eq:
  assumes "2 powr of_int k \<le> x" "x < 2 powr of_int (k + 1)"
  shows "binade x = k"
proof -
  have pos: "0 < x" by (rule less_le_trans [OF _ assms(1)]) simp
  then have "\<lfloor>log 2 x\<rfloor> = k"
    using assms by (simp add: floor_log_eq_powr_iff)
  with pos show ?thesis by (simp add: binade_def)
qed

lemma to_double_binade:
  assumes "2 powr of_int k \<le> x" "x < 2 powr of_int (k + 1)"
  shows "to_double x = of_int (round_ties_even (x / 2 powr of_int (k - 52))) * 2 powr of_int (k - 52)"
proof -
  have "0 < x" by (rule less_le_trans [OF _ assms(1)]) simp
  then show ?thesis using binade_eq [OF assms] by (simp add: to_double_def)
qed

lemma to_double_error:
  assumes "0 < x"
  shows "\<bar>to_double x - x\<bar> \<le> x / 2 ^ 53"
proof -
  let ?u = "2 powr of_int (binade x - 52) :: real"
  have u: "0 < ?u" by simp
  have "of_int (binade x) \<le> log 2 x"
    using assms by (simp add: binade_def)
  then have "2 powr of_int (binade x) \<le> 2 powr (log 2 x)"
    by (simp add: powr_mono)
  then have b: "2 powr of_int (binade x) \<le> x" using assms by simp
  have "?u = 2 powr of_int (binade x) / 2 powr 52"
    by (simp add: powr_diff)
  also have "\<dots> \<le> x / 2 powr 52" using b by (simp add: divide_right_mono)
  finally have ux: "?u \<le> x / 2 ^ 52" by simp
  have "to_double x - x = (of_int (round_ties_even (x / ?u)) - x / ?u) * ?u"
    using assms u by (simp add: to_double_def field_simps)
  then have "\<bar>to_double x - x\<bar> = \<bar>of_int (round_ties_even (x / ?u)) - x / ?u\<bar> * ?u"
    using u by (simp add: abs_mult)
  also have "\<dots> \<le> (1 / 2) * ?u"
    using round_ties_even_error [of "x / ?u"] u by (intro mult_right_mono) simp_all
  also have "\<dots> \<le> (1 / 2) * (x / 2 ^ 52)" using ux by simp
  finally show ?thesis by simp
qed

lemma to_double_half: "to_double (1 / 2) = 1 / 2"
proof -
  have "to_double (1 / 2) = of_int (round_ties_even ((1 / 2) / 2 powr of_int (- 1 - 52)))
          * 2 powr of_int (- 1 - 52)"
    by (rule to_double_binade) (simp_all add: powr_minus)
  also have "(1 / 2) / 2 powr of_int (- 1 - 52) = (of_int (2 ^ 52) :: real)"
    by (simp add: powr_minus)
  finally show ?thesis
    by (simp only: round_ties_even_of_int) (simp add: powr_minus)
qed


lemma to_double_scaled:
  assumes "2 powr of_int k \<le> x" "x < 2 powr of_int (k + 1)" "k \<le> 52"
  shows "to_double x = of_int (round_ties_even (x * 2 ^ nat (52 - k))) / 2 ^ nat (52 - k)"
proof -
  have n: "- (k - 52) = 52 - k" by simp
  have "2 powr of_int (k - 52) = inverse (2 ^ nat (52 - k) :: real)"
  proof (cases "k = 52")
    case True
    then show ?thesis by simp
  next
    case False
    with assms(3) have "\<not> 0 \<le> k - 52" by simp
    then show ?thesis by (simp only: powr_real_of_int [of 2, simplified] n if_False)
  qed
  then show ?thesis
    unfolding to_double_binade [OF assms(1,2)] by (simp add: divide_inverse)
qed

lemma to_double_0_3: "to_double 0.3 = 5404319552844595 / 18014398509481984"
proof -
  have "to_double 0.3 = of_int (round_ties_even (0.3 * 2 ^ nat (52 - (- 2)))) / 2 ^ nat (52 - (- 2))"
    by (rule to_double_scaled) (simp_all add: powr_minus)
  also have "\<dots> = 5404319552844595 / 18014398509481984"
    by (simp add: round_ties_even_def)
  finally show ?thesis .
qed

lemma to_double_0_2: "to_double 0.2 = 3602879701896397 / 18014398509481984"
proof -
  have "to_double 0.2 = of_int (round_ties_even (0.2 * 2 ^ nat (52 - (- 3)))) / 2 ^ nat (52 - (- 3))"
    by (rule to_double_scaled) (simp_all add: powr_minus)
  also have "\<dots> = 3602879701896397 / 18014398509481984"
    by (simp add: round_ties_even_def)
  finally show ?thesis .
qed

lemma to_double_0_1: "to_double 0.1 = 3602879701896397 / 36028797018963968"
proof -
  have "to_double 0.1 = of_int (round_ties_even (0.1 * 2 ^ nat (52 - (- 4)))) / 2 ^ nat (52 - (- 4))"
    by (rule to_double_scaled) (simp_all add: powr_minus)
  also have "\<dots> = 3602879701896397 / 36028797018963968"
    by (simp add: round_ties_even_def)
  finally show ?thesis .
qed

lemma to_double_0_5: "to_double 0.5 = 1 / 2"
  using to_double_half by simp

lemma to_double_30_8:
  "to_double (61 / 2 + 5404319552844595 / 18014398509481984)
     = 8669429282688205 / 281474976710656"
proof -
  let ?x = "61 / 2 + 5404319552844595 / 18014398509481984 :: real"
  have "to_double ?x = of_int (round_ties_even (?x * 2 ^ nat (52 - 4))) / 2 ^ nat (52 - 4)"
    by (rule to_double_scaled) simp_all
  also have "\<dots> = 8669429282688205 / 281474976710656"
    by (simp add: round_ties_even_def)
  finally show ?thesis .
qed

subsection \<open>The progress timer\<close>

lemma increment_table:
  "increment p =
    (if p \<le> 30 then to_double 0.5 else if p < 60 then to_double 0.3
     else if p < 80 then to_double 0.2 else to_double 0.1)"
  by (simp add: increment_def)

lemma to_double_literals:
  "to_double (1 / 2) = 1 / 2"
  "to_double (3 / 10) = 5404319552844595 / 18014398509481984"
  "to_double (1 / 5) = 3602879701896397 / 18014398509481984"
  "to_double (1 / 10) = 3602879701896397 / 36028797018963968"
  using to_double_0_5 to_double_0_3 to_double_0_2 to_double_0_1 by simp_all

lemma increment_bounds: "9 / 100 \<le> increment p \<and> increment p \<le> 1 / 2"
  by (simp add: increment_def to_double_literals)

lemma rounded_sum_above:
  assumes "0 \<le> p" "p \<le> 95"
  shows "p \<le> to_double (p + increment p)"
proof -
  let ?x = "p + increment p"
  have i: "9 / 100 \<le> increment p" "increment p \<le> 1 / 2"
    using increment_bounds [of p] by simp_all
  have pos: "0 < ?x" using assms(1) i(1) by linarith
  have "?x / 2 ^ 53 \<le> 96 / 2 ^ 53"
    using assms(2) i(2) by (intro divide_right_mono) simp_all
  also have "\<dots> \<le> (9 / 100 :: real)" by simp
  finally have e: "?x / 2 ^ 53 \<le> 9 / 100" .
  from to_double_error [OF pos] have "?x - ?x / 2 ^ 53 \<le> to_double ?x" by linarith
  with e i(1) show ?thesis by linarith
qed

lemma interval_tick_live:
  assumes "progressInterval s = Some a" "\<not> cleared a" "isProcessing s"
  shows "interval_tick now s =
     updateProgressDisplay
       (Math_round (min (if now - lastUpdateTime a \<ge> 100
                         then to_double (progress a + increment (progress a)) else progress a) 95))
       (getStatusForProgress (min (if now - lastUpdateTime a \<ge> 100
                         then to_double (progress a + increment (progress a)) else progress a) 95))
       (s\<lparr> progressInterval := Some
           \<lparr> progress = min (if now - lastUpdateTime a \<ge> 100
                         then to_double (progress a + increment (progress a)) else progress a) 95,
             lastUpdateTime = (if now - lastUpdateTime a \<ge> 100 then now else lastUpdateTime a),
             cleared = False \<rparr> \<rparr>)"
  using assms by (cases a) (simp add: interval_tick_def Let_def)

text \<open>What a run of the callback leaves in the timer and on the displays.\<close>

lemma interval_tick_writes:
  assumes "progressInterval s = Some a" "\<not> cleared a" "isProcessing s"
  shows "\<exists>a'. progressInterval (interval_tick now s) = Some a' \<and> \<not> cleared a'
      \<and> progress a' = min (if now - lastUpdateTime a \<ge> 100
                         then to_double (progress a + increment (progress a)) else progress a) 95
      \<and> lastUpdateTime a' = (if now - lastUpdateTime a \<ge> 100 then now else lastUpdateTime a)
      \<and> progressBar (interval_tick now s)
            = map_option (\<lambda>p. Math_round (progress a')) (progressBar s)
      \<and> spinner (interval_tick now s)
            = map_option (\<lambda>p. Math_round (progress a')) (spinner s)"
  unfolding interval_tick_live [OF assms]
  by (simp add: updateProgressDisplay_fields)

lemma showStatus_fields:
  "isProcessing (showStatus m ty s) = isProcessing s"
  "sent (showStatus m ty s) = sent s"
  "uploadedFiles (showStatus m ty s) = uploadedFiles s"
  "progressBar (showStatus m ty s) = progressBar s"
  "spinner (showStatus m ty s) = spinner s"
  "progressInterval (showStatus m ty s) = progressInterval s"
  "selectedFormat (showStatus m ty s) = selectedFormat s"
  "selectedTemplate (showStatus m ty s) = selectedTemplate s"
  "statusMessage (showStatus m ty s) = (m, ty)"
  by (simp_all add: showStatus_def)

lemma updateGenerateButtonState_fields:
  "isProcessing (updateGenerateButtonState e s) = isProcessing s"
  "sent (updateGenerateButtonState e s) = sent s"
  "uploadedFiles (updateGenerateButtonState e s) = uploadedFiles s"
  "progressBar (updateGenerateButtonState e s) = progressBar s"
  "spinner (updateGenerateButtonState e s) = spinner s"
  "progressInterval (updateGenerateButtonState e s) = progressInterval s"
  "selectedFormat (updateGenerateButtonState e s) = selectedFormat s"
  "selectedTemplate (updateGenerateButtonState e s) = selectedTemplate s"
  "generateKindleBtn_disabled (updateGenerateButtonState e s)
     = map_option (\<lambda>d. \<not> e) (generateKindleBtn_disabled s)"
  by (simp_all add: updateGenerateButtonState_def)

lemma startProgressAnimation_fields:
  "isProcessing (startProgressAnimation now s) = isProcessing s"
  "sent (startProgressAnimation now s) = sent s"
  "uploadedFiles (startProgressAnimation now s) = uploadedFiles s"
  "selectedFormat (startProgressAnimation now s) = selectedFormat s"
  by (simp_all add: startProgressAnimation_def Let_def)

lemma startProgressAnimation_timer:
  "progressBar s \<noteq> None \<or> spinner s \<noteq> None \<Longrightarrow>
   progressInterval (startProgressAnimation now s)
     = Some \<lparr> progress = 0, lastUpdateTime = now, cleared = False \<rparr>"
  by (auto simp: startProgressAnimation_def Let_def)

lemma on_ebook_generated_isProcessing: "\<not> isProcessing (on_ebook_generated r s)"
  by (simp add: on_ebook_generated_def Let_def updateGenerateButtonState_fields showStatus_fields
        updateProgressDisplay_fields split: option.splits)

lemma on_ebook_generated_progressBar:
  "progressBar (on_ebook_generated r s) = map_option (\<lambda>x. 100) (progressBar s)"
  by (simp add: on_ebook_generated_def Let_def updateGenerateButtonState_fields showStatus_fields
        updateProgressDisplay_fields split: option.splits)

lemma on_ebook_generated_progressInterval:
  "progressInterval (on_ebook_generated r s) = None"
  by (simp add: on_ebook_generated_def Let_def updateGenerateButtonState_fields showStatus_fields
        updateProgressDisplay_fields split: option.splits)

lemma on_ebook_generated_sent: "sent (on_ebook_generated r s) = sent s"
  by (simp add: on_ebook_generated_def Let_def updateGenerateButtonState_fields showStatus_fields
        updateProgressDisplay_fields split: option.splits)

lemma Math_round_mono: "x \<le> y \<Longrightarrow> Math_round x \<le> Math_round y"
  by (simp add: Math_round_def floor_mono)

lemma Math_round_le_95: "x \<le> 95 \<Longrightarrow> Math_round x \<le> 95"
proof -
  assume "x \<le> 95"
  then have "\<lfloor>x + 1 / 2\<rfloor> \<le> 95" by linarith
  then show ?thesis unfolding Math_round_def by linarith
qed

lemma interval_tick_animating:
  assumes "animating s" "progressInterval s = Some a"
  shows "\<exists>a'. animating (interval_tick now s)
      \<and> progressInterval (interval_tick now s) = Some a'
      \<and> progressBar (interval_tick now s)
            = map_option (\<lambda>p. Math_round (progress a')) (progressBar s)
      \<and> spinner (interval_tick now s)
            = map_option (\<lambda>p. Math_round (progress a')) (spinner s)
      \<and> Math_round (progress a) \<le> Math_round (progress a')
      \<and> Math_round (progress a') \<le> 95"
proof -
  from assms have a: "\<not> cleared a" "isProcessing s" "0 \<le> progress a" "progress a \<le> 95"
    by (auto simp: animating_def)
  let ?p = "min (if now - lastUpdateTime a \<ge> 100
                 then to_double (progress a + increment (progress a)) else progress a) 95"
  from interval_tick_writes [OF assms(2) a(1,2), of now]
  obtain a' where a': "progressInterval (interval_tick now s) = Some a'" "\<not> cleared a'"
      "progress a' = ?p"
      "progressBar (interval_tick now s) = map_option (\<lambda>p. Math_round (progress a')) (progressBar s)"
      "spinner (interval_tick now s) = map_option (\<lambda>p. Math_round (progress a')) (spinner s)"
    by blast
  have lo: "progress a \<le> ?p"
    using a(4) rounded_sum_above [OF a(3,4)] by (simp add: min_def)
  have hi: "?p \<le> 95" by simp
  have r95: "Math_round (progress a') \<le> 95"
    unfolding a'(3) using hi by (rule Math_round_le_95)
  then have lt: "Math_round (progress a') < 100" by linarith
  have ip: "isProcessing (interval_tick now s)"
    unfolding interval_tick_live [OF assms(2) a(1,2)]
    using a(2) by (simp add: updateProgressDisplay_fields)
  have bar: "progressBar (interval_tick now s)
      = map_option (\<lambda>p. Math_round (progress a')) (progressBar (interval_tick now s))"
    unfolding a'(4) by (simp add: option.map_comp comp_def)
  have spin: "spinner (interval_tick now s)
      = map_option (\<lambda>p. Math_round (progress a')) (spinner (interval_tick now s))"
    unfolding a'(5) by (simp add: option.map_comp comp_def)
  have "0 \<le> progress a'" "progress a' \<le> 95"
    using lo a(3) hi unfolding a'(3) by linarith+
  with a'(1,2) ip bar spin have "animating (interval_tick now s)"
    by (simp add: animating_def)
  moreover have "Math_round (progress a) \<le> Math_round (progress a')"
    unfolding a'(3) using lo by (rule Math_round_mono)
  ultimately show ?thesis using a'(1,4,5) r95 by blast
qed

lemma ticks_animating:
  assumes "animating s" "progressInterval s = Some a"
  shows "\<exists>as. map progressInterval (ticks nows s) = map Some as
            \<and> map progressBar (ticks nows s)
                 = map (\<lambda>a'. map_option (\<lambda>p. Math_round (progress a')) (progressBar s)) as
            \<and> map spinner (ticks nows s)
                 = map (\<lambda>a'. map_option (\<lambda>p. Math_round (progress a')) (spinner s)) as
            \<and> sorted (map (\<lambda>a'. Math_round (progress a')) (a # as))
            \<and> (\<forall>a'\<in>set as. Math_round (progress a') \<le> 95)
            \<and> (\<forall>u\<in>set (ticks nows s). isProcessing u)"
  using assms
proof (induction nows arbitrary: s a)
  case Nil
  show ?case by simp
next
  case (Cons t ts)
  let ?s' = "interval_tick t s"
  from interval_tick_animating [OF Cons.prems, of t]
  obtain a' where step: "animating ?s'" "progressInterval ?s' = Some a'"
      "progressBar ?s' = map_option (\<lambda>p. Math_round (progress a')) (progressBar s)"
      "spinner ?s' = map_option (\<lambda>p. Math_round (progress a')) (spinner s)"
      "Math_round (progress a) \<le> Math_round (progress a')"
      "Math_round (progress a') \<le> 95"
    by blast
  from Cons.IH [OF step(1,2)]
  obtain as where as: "map progressInterval (ticks ts ?s') = map Some as"
      "map progressBar (ticks ts ?s')
         = map (\<lambda>b. map_option (\<lambda>p. Math_round (progress b)) (progressBar ?s')) as"
      "map spinner (ticks ts ?s')
         = map (\<lambda>b. map_option (\<lambda>p. Math_round (progress b)) (spinner ?s')) as"
      "sorted (map (\<lambda>b. Math_round (progress b)) (a' # as))"
      "\<forall>b\<in>set as. Math_round (progress b) \<le> 95"
      "\<forall>u\<in>set (ticks ts ?s'). isProcessing u"
    by blast
  have ip: "isProcessing ?s'"
    using step(1,2) by (simp add: animating_def)
  have bar: "map progressBar (ticks (t # ts) s)
      = map (\<lambda>b. map_option (\<lambda>p. Math_round (progress b)) (progressBar s)) (a' # as)"
    using step(3) as(2) by (simp add: option.map_comp comp_def)
  have spin: "map spinner (ticks (t # ts) s)
      = map (\<lambda>b. map_option (\<lambda>p. Math_round (progress b)) (spinner s)) (a' # as)"
    using step(4) as(3) by (simp add: option.map_comp comp_def)
  have pi: "map progressInterval (ticks (t # ts) s) = map Some (a' # as)"
    using step(2) as(1) by simp
  have srt: "sorted (map (\<lambda>b. Math_round (progress b)) (a # a' # as))"
    using step(5) as(4) by auto
  have le: "\<forall>b\<in>set (a' # as). Math_round (progress b) \<le> 95"
    using step(6) as(5) by simp
  have all: "\<forall>u\<in>set (ticks (t # ts) s). isProcessing u"
    using ip as(6) by simp
  from pi bar spin srt le all show ?case by blast
qed


lemma on_ebook_generated_spinner:
  "spinner (on_ebook_generated r s) = map_option (\<lambda>x. 100) (spinner s)"
  by (simp add: on_ebook_generated_def Let_def updateGenerateButtonState_fields showStatus_fields
        updateProgressDisplay_fields split: option.splits)

text \<open>
  C9: the animation starts at 0. A run of the interval callback at least 100 ms after the
  last increment adds the double 0.5 to a value up to 30, the double 0.3 to a value
  between 30 and 60, the double 0.2 to a value from 60 to below 80 and the double 0.1 to
  a value of 80 or more, stores the sum rounded to a double, and caps it at 95; an
  earlier run adds nothing. The double 0.5 is 0.5, the other three steps are within
  \<^verbatim>\<open>2^-55\<close> of their literals and a rounded sum is within one part in \<^verbatim>\<open>2^53\<close>
  of the exact sum. The completion event writes 100 to the bar and the spinner and ends
  the animation.
\<close>

theorem progress_timer_steps:
  "(progressBar s \<noteq> None \<or> spinner s \<noteq> None \<longrightarrow>
      progressInterval (startProgressAnimation now s)
        = Some \<lparr> progress = 0, lastUpdateTime = now, cleared = False \<rparr>)
   \<and> (progressInterval s = Some a \<and> \<not> cleared a \<and> isProcessing s \<longrightarrow>
        (\<exists>a'. progressInterval (interval_tick now s) = Some a' \<and> progress a' \<le> 95
           \<and> (now - lastUpdateTime a \<ge> 100 \<longrightarrow>
                 lastUpdateTime a' = now \<and>
                 progress a' = min (to_double (progress a +
                   (if progress a \<le> 30 then to_double 0.5
                    else if progress a < 60 then to_double 0.3
                    else if progress a < 80 then to_double 0.2 else to_double 0.1))) 95)
           \<and> (now - lastUpdateTime a < 100 \<longrightarrow>
                 lastUpdateTime a' = lastUpdateTime a \<and> progress a' = min (progress a) 95)))
   \<and> to_double 0.5 = 0.5
   \<and> \<bar>to_double 0.3 - 0.3\<bar> \<le> 1 / 2 ^ 55
   \<and> \<bar>to_double 0.2 - 0.2\<bar> \<le> 1 / 2 ^ 55
   \<and> \<bar>to_double 0.1 - 0.1\<bar> \<le> 1 / 2 ^ 55
   \<and> (0 < x \<longrightarrow> \<bar>to_double x - x\<bar> \<le> x / 2 ^ 53)
   \<and> progressBar (on_ebook_generated r s) = map_option (\<lambda>p. 100) (progressBar s)
   \<and> spinner (on_ebook_generated r s) = map_option (\<lambda>p. 100) (spinner s)
   \<and> progressInterval (on_ebook_generated r s) = None"
proof (intro conjI impI)
  assume "progressBar s \<noteq> None \<or> spinner s \<noteq> None"
  then show "progressInterval (startProgressAnimation now s)
        = Some \<lparr> progress = 0, lastUpdateTime = now, cleared = False \<rparr>"
    by (rule startProgressAnimation_timer)
next
  assume a: "progressInterval s = Some a \<and> \<not> cleared a \<and> isProcessing s"
  then have a1: "progressInterval s = Some a" and a2: "\<not> cleared a" and a3: "isProcessing s"
    by simp_all
  from interval_tick_writes [OF a1 a2 a3, of now]
  obtain a' where a': "progressInterval (interval_tick now s) = Some a'"
      "progress a' = min (if now - lastUpdateTime a \<ge> 100
                         then to_double (progress a + increment (progress a)) else progress a) 95"
      "lastUpdateTime a' = (if now - lastUpdateTime a \<ge> 100 then now else lastUpdateTime a)"
    by blast
  have "progress a' \<le> 95" unfolding a'(2) by simp
  moreover have "now - lastUpdateTime a \<ge> 100 \<longrightarrow>
                 lastUpdateTime a' = now \<and>
                 progress a' = min (to_double (progress a +
                   (if progress a \<le> 30 then to_double 0.5
                    else if progress a < 60 then to_double 0.3
                    else if progress a < 80 then to_double 0.2 else to_double 0.1))) 95"
    unfolding a'(2,3) increment_table by simp
  moreover have "now - lastUpdateTime a < 100 \<longrightarrow>
                 lastUpdateTime a' = lastUpdateTime a \<and> progress a' = min (progress a) 95"
    unfolding a'(2,3) by simp
  ultimately show "\<exists>a'. progressInterval (interval_tick now s) = Some a' \<and> progress a' \<le> 95
           \<and> (now - lastUpdateTime a \<ge> 100 \<longrightarrow>
                 lastUpdateTime a' = now \<and>
                 progress a' = min (to_double (progress a +
                   (if progress a \<le> 30 then to_double 0.5
                    else if progress a < 60 then to_double 0.3
                    else if progress a < 80 then to_double 0.2 else to_double 0.1))) 95)
           \<and> (now - lastUpdateTime a < 100 \<longrightarrow>
                 lastUpdateTime a' = lastUpdateTime a \<and> progress a' = min (progress a) 95)"
    using a'(1) by blast
next
  show "to_double 0.5 = 0.5" using to_double_literals(1) by simp
next
  show "\<bar>to_double 0.3 - 0.3\<bar> \<le> 1 / 2 ^ 55" by (simp add: to_double_literals)
next
  show "\<bar>to_double 0.2 - 0.2\<bar> \<le> 1 / 2 ^ 55" by (simp add: to_double_literals)
next
  show "\<bar>to_double 0.1 - 0.1\<bar> \<le> 1 / 2 ^ 55" by (simp add: to_double_literals)
next
  assume "0 < x"
  then show "\<bar>to_double x - x\<bar> \<le> x / 2 ^ 53" by (rule to_double_error)
next
  show "progressBar (on_ebook_generated r s) = map_option (\<lambda>p. 100) (progressBar s)"
    by (rule on_ebook_generated_progressBar)
next
  show "spinner (on_ebook_generated r s) = map_option (\<lambda>p. 100) (spinner s)"
    by (rule on_ebook_generated_spinner)
next
  show "progressInterval (on_ebook_generated r s) = None"
    by (rule on_ebook_generated_progressInterval)
qed


lemma after_drop_eq:
  "after_drop = initial_ui
     \<lparr> uploadedFiles := [''/tmp/a.eml''], isProcessing := True,
       progressInterval := Some \<lparr> progress = 0, lastUpdateTime = 0, cleared = False \<rparr>,
       dropZone_classList := {''processing''},
       statusMessage := (St_processing 1, ''info''),
       sent := [Process_dropped_files [''/tmp/a.eml''] ''auto'' None] \<rparr>"
  by (simp add: after_drop_def on_drop_def handleFileDrop_def initial_ui_def showStatus_def
        updateGenerateButtonState_def startProgressAnimation_def Let_def)

lemma after_drop_fields:
  "isProcessing after_drop"
  "uploadedFiles after_drop = [''/tmp/a.eml'']"
  "progressInterval after_drop = Some \<lparr> progress = 0, lastUpdateTime = 0, cleared = False \<rparr>"
  "progressBar after_drop = Some 0"
  "sent after_drop = [Process_dropped_files [''/tmp/a.eml''] ''auto'' None]"
  "selectedFormat after_drop = ''auto''"
  "selectedTemplate after_drop = None"
  by (simp_all add: after_drop_eq initial_ui_def)

lemma animating_after_drop: "animating after_drop"
  by (simp add: animating_def after_drop_eq initial_ui_def Math_round_def)

lemma on_progress_update_fields:
  "progressBar (on_progress_update p st s) = map_option (\<lambda>x. p) (progressBar s)"
  "isProcessing (on_progress_update p st s) = (p < 100 \<or> isProcessing s)"
  "progressInterval (on_progress_update p st s) = progressInterval s"
  "sent (on_progress_update p st s) = sent s"
  by (simp_all add: on_progress_update_def updateProgressDisplay_fields)


lemma on_progress_update_spinner:
  "spinner (on_progress_update p st s) = map_option (\<lambda>x. p) (spinner s)"
  by (simp add: on_progress_update_def updateProgressDisplay_fields)

lemma at_30_5_fields:
  "isProcessing at_30_5"
  "progressInterval at_30_5 = Some \<lparr> progress = 61 / 2, lastUpdateTime = 6100, cleared = False \<rparr>"
  "progressBar at_30_5 = Some 31"
  "spinner at_30_5 = Some 31"
  by (simp_all add: at_30_5_def after_drop_fields)

text \<open>
  C4, as stated: while \<^verbatim>\<open>isProcessing\<close> holds the displayed percentage never decreases
  and stays at or below 95 until completion. After a drop the backend reports 50 and the
  bar shows 50; the next tick of the timer writes its own value, 1. A report of 99 is
  shown as 99. No completion event has arrived.
\<close>

theorem progress_display_counterexample:
  "isProcessing after_drop
   \<and> isProcessing (on_progress_update 50 ''Parsing'' after_drop)
   \<and> progressBar (on_progress_update 50 ''Parsing'' after_drop) = Some 50
   \<and> isProcessing (interval_tick 100 (on_progress_update 50 ''Parsing'' after_drop))
   \<and> progressBar (interval_tick 100 (on_progress_update 50 ''Parsing'' after_drop)) = Some 1
   \<and> progressBar (on_progress_update 99 ''Almost'' after_drop) = Some 99"
proof -
  let ?s = "on_progress_update 50 ''Parsing'' after_drop"
  let ?a = "\<lparr> progress = 0, lastUpdateTime = 0, cleared = False \<rparr>"
  have live: "progressInterval ?s = Some ?a" "\<not> cleared ?a"
    "isProcessing ?s" "progressBar ?s = Some 50"
    by (simp_all add: on_progress_update_fields after_drop_fields)
  have p: "min (if 100 - lastUpdateTime ?a \<ge> 100
                then to_double (progress ?a + increment (progress ?a)) else progress ?a) 95 = 1 / 2"
    by (simp add: increment_def to_double_literals)
  have tick: "interval_tick 100 ?s =
      updateProgressDisplay (Math_round (1 / 2)) (getStatusForProgress (1 / 2))
        (?s\<lparr> progressInterval := Some \<lparr> progress = 1 / 2, lastUpdateTime = 100, cleared = False \<rparr> \<rparr>)"
    unfolding interval_tick_live [OF live(1,2,3), of 100] p by simp
  have r: "Math_round (1 / 2) = 1" by (simp add: Math_round_def)
  have "progressBar (interval_tick 100 ?s) = Some 1"
    unfolding tick r by (simp add: updateProgressDisplay_fields live(4))
  moreover have "isProcessing (interval_tick 100 ?s)"
    unfolding tick r by (simp add: updateProgressDisplay_fields)
  ultimately show ?thesis
    by (simp add: on_progress_update_fields after_drop_fields)
qed

text \<open>
  C4, amended: from a running animation whose value every display shows, the
  percentages the timer writes to the progress bar and to the spinner at any sequence of
  ticks never decrease and never exceed 95, and \<^verbatim>\<open>isProcessing\<close> holds throughout. A
  \<^verbatim>\<open>progress-update\<close> event shows the percentage it carries on both and leaves the timer
  alone; the next tick of a running timer writes the timer's own rounded value over
  whatever is shown. The completion event shows 100 and resets \<^verbatim>\<open>isProcessing\<close>,
  whether the result reports success or failure.
\<close>

theorem progress_display_timer_monotone:
  "(animating s \<and> progressInterval s = Some a \<longrightarrow>
      (\<exists>as. map progressInterval (ticks nows s) = map Some as
          \<and> map progressBar (ticks nows s)
               = map (\<lambda>a'. map_option (\<lambda>p. Math_round (progress a')) (progressBar s)) as
          \<and> map spinner (ticks nows s)
               = map (\<lambda>a'. map_option (\<lambda>p. Math_round (progress a')) (spinner s)) as
          \<and> sorted (map (\<lambda>a'. Math_round (progress a')) (a # as))
          \<and> (\<forall>a'\<in>set as. Math_round (progress a') \<le> 95)
          \<and> (\<forall>u\<in>set (ticks nows s). isProcessing u)))
   \<and> progressBar (on_progress_update percentage status s)
        = map_option (\<lambda>p. percentage) (progressBar s)
   \<and> spinner (on_progress_update percentage status s)
        = map_option (\<lambda>p. percentage) (spinner s)
   \<and> progressInterval (on_progress_update percentage status s) = progressInterval s
   \<and> (progressInterval s = Some b \<and> \<not> cleared b \<and> isProcessing s \<longrightarrow>
        (\<exists>b'. progressInterval (interval_tick now s) = Some b'
           \<and> progress b' = min (if now - lastUpdateTime b \<ge> 100
                                then to_double (progress b + increment (progress b))
                                else progress b) 95
           \<and> progressBar (interval_tick now s)
                = map_option (\<lambda>p. Math_round (progress b')) (progressBar s)
           \<and> spinner (interval_tick now s)
                = map_option (\<lambda>p. Math_round (progress b')) (spinner s)))
   \<and> progressBar (on_ebook_generated r s) = map_option (\<lambda>p. 100) (progressBar s)
   \<and> spinner (on_ebook_generated r s) = map_option (\<lambda>p. 100) (spinner s)
   \<and> \<not> isProcessing (on_ebook_generated r s)"
proof (intro conjI impI)
  assume "animating s \<and> progressInterval s = Some a"
  then have "animating s" "progressInterval s = Some a" by simp_all
  then show "\<exists>as. map progressInterval (ticks nows s) = map Some as
          \<and> map progressBar (ticks nows s)
               = map (\<lambda>a'. map_option (\<lambda>p. Math_round (progress a')) (progressBar s)) as
          \<and> map spinner (ticks nows s)
               = map (\<lambda>a'. map_option (\<lambda>p. Math_round (progress a')) (spinner s)) as
          \<and> sorted (map (\<lambda>a'. Math_round (progress a')) (a # as))
          \<and> (\<forall>a'\<in>set as. Math_round (progress a') \<le> 95)
          \<and> (\<forall>u\<in>set (ticks nows s). isProcessing u)"
    by (rule ticks_animating)
next
  show "progressBar (on_progress_update percentage status s)
        = map_option (\<lambda>p. percentage) (progressBar s)"
    by (simp add: on_progress_update_fields)
next
  show "spinner (on_progress_update percentage status s)
        = map_option (\<lambda>p. percentage) (spinner s)"
    by (rule on_progress_update_spinner)
next
  show "progressInterval (on_progress_update percentage status s) = progressInterval s"
    by (simp add: on_progress_update_fields)
next
  assume "progressInterval s = Some b \<and> \<not> cleared b \<and> isProcessing s"
  then have b: "progressInterval s = Some b" "\<not> cleared b" "isProcessing s" by simp_all
  from interval_tick_writes [OF b, of now]
  show "\<exists>b'. progressInterval (interval_tick now s) = Some b'
           \<and> progress b' = min (if now - lastUpdateTime b \<ge> 100
                                then to_double (progress b + increment (progress b))
                                else progress b) 95
           \<and> progressBar (interval_tick now s)
                = map_option (\<lambda>p. Math_round (progress b')) (progressBar s)
           \<and> spinner (interval_tick now s)
                = map_option (\<lambda>p. Math_round (progress b')) (spinner s)"
    by blast
next
  show "progressBar (on_ebook_generated r s) = map_option (\<lambda>p. 100) (progressBar s)"
    by (rule on_ebook_generated_progressBar)
next
  show "spinner (on_ebook_generated r s) = map_option (\<lambda>p. 100) (spinner s)"
    by (rule on_ebook_generated_spinner)
next
  show "\<not> isProcessing (on_ebook_generated r s)"
    by (rule on_ebook_generated_isProcessing)
qed

text \<open>
  C4, amended, from the state after a drop, with ticks at 100, 200 and 250 ms, and at a
  tick that follows a report of 50.
\<close>

theorem progress_display_timer_monotone_witness:
  "animating after_drop
   \<and> progressInterval after_drop = Some \<lparr> progress = 0, lastUpdateTime = 0, cleared = False \<rparr>
   \<and> (\<exists>as. map progressInterval (ticks [100, 200, 250] after_drop) = map Some as
          \<and> map progressBar (ticks [100, 200, 250] after_drop)
               = map (\<lambda>a'. Some (Math_round (progress a'))) as
          \<and> map spinner (ticks [100, 200, 250] after_drop)
               = map (\<lambda>a'. Some (Math_round (progress a'))) as
          \<and> sorted (0 # map (\<lambda>a'. Math_round (progress a')) as)
          \<and> (\<forall>a'\<in>set as. Math_round (progress a') \<le> 95))
   \<and> progressBar (on_progress_update 50 ''Parsing'' after_drop) = Some 50
   \<and> (\<exists>b'. progressInterval (interval_tick 100 (on_progress_update 50 ''Parsing'' after_drop))
               = Some b'
          \<and> progress b' = 1 / 2
          \<and> progressBar (interval_tick 100 (on_progress_update 50 ''Parsing'' after_drop))
               = Some (Math_round (progress b')))
   \<and> progressBar (on_ebook_generated epub_result after_drop) = Some 100"
proof -
  let ?a = "\<lparr> progress = 0, lastUpdateTime = 0, cleared = False \<rparr>"
  let ?s = "on_progress_update 50 ''Parsing'' after_drop"
  have h: "animating after_drop \<and> progressInterval after_drop = Some ?a"
    by (simp add: animating_after_drop after_drop_fields)
  have hs: "progressInterval ?s = Some ?a \<and> \<not> cleared ?a \<and> isProcessing ?s"
    by (simp add: on_progress_update_fields after_drop_fields)
  have bar: "progressBar after_drop = Some 0" "spinner after_drop = Some 0"
    by (simp_all add: after_drop_eq initial_ui_def)
  note thm1 = progress_display_timer_monotone [where s = after_drop and a = ?a
      and nows = "[100, 200, 250]" and r = epub_result and percentage = 50
      and status = "''Parsing''" and b = ?a and now = 100]
  note thm2 = progress_display_timer_monotone [where s = ?s and b = ?a and now = 100
      and a = ?a and nows = "[]" and r = epub_result and percentage = 50 and status = "''Parsing''"]
  from thm1 h obtain as where as:
      "map progressInterval (ticks [100, 200, 250] after_drop) = map Some as"
      "map progressBar (ticks [100, 200, 250] after_drop)
         = map (\<lambda>a'. map_option (\<lambda>p. Math_round (progress a')) (progressBar after_drop)) as"
      "map spinner (ticks [100, 200, 250] after_drop)
         = map (\<lambda>a'. map_option (\<lambda>p. Math_round (progress a')) (spinner after_drop)) as"
      "sorted (map (\<lambda>a'. Math_round (progress a')) (?a # as))"
      "\<forall>a'\<in>set as. Math_round (progress a') \<le> 95"
    by blast
  have r0: "Math_round 0 = 0" by (simp add: Math_round_def)
  have t1: "\<exists>as. map progressInterval (ticks [100, 200, 250] after_drop) = map Some as
          \<and> map progressBar (ticks [100, 200, 250] after_drop)
               = map (\<lambda>a'. Some (Math_round (progress a'))) as
          \<and> map spinner (ticks [100, 200, 250] after_drop)
               = map (\<lambda>a'. Some (Math_round (progress a'))) as
          \<and> sorted (0 # map (\<lambda>a'. Math_round (progress a')) as)
          \<and> (\<forall>a'\<in>set as. Math_round (progress a') \<le> 95)"
    using as by (intro exI [of _ as]) (simp add: bar r0)
  from thm1 have t2: "progressBar ?s = Some 50" by (simp add: bar)
  from thm2 hs obtain b' where b': "progressInterval (interval_tick 100 ?s) = Some b'"
      "progress b' = min (if 100 - lastUpdateTime ?a \<ge> 100
                          then to_double (progress ?a + increment (progress ?a))
                          else progress ?a) 95"
      "progressBar (interval_tick 100 ?s) = map_option (\<lambda>p. Math_round (progress b')) (progressBar ?s)"
    by blast
  have "progress b' = 1 / 2"
    unfolding b'(2) by (simp add: increment_def to_double_literals)
  moreover have "progressBar (interval_tick 100 ?s) = Some (Math_round (progress b'))"
    unfolding b'(3) t2 by simp
  ultimately have t3: "\<exists>b'. progressInterval (interval_tick 100 ?s) = Some b'
          \<and> progress b' = 1 / 2
          \<and> progressBar (interval_tick 100 ?s) = Some (Math_round (progress b'))"
    using b'(1) by blast
  from thm1 have t4: "progressBar (on_ebook_generated epub_result after_drop) = Some 100"
    by (simp add: bar)
  from h t1 t2 t3 t4 show ?thesis by blast
qed

text \<open>
  C9 at the first tick after a drop, from 0 to 0.5, and at the tick that takes the
  animation from 30.5 to the double next to 30.8, which is 30.8000000000000007.
\<close>

theorem progress_timer_steps_witness:
  "progressInterval after_drop = Some \<lparr> progress = 0, lastUpdateTime = 0, cleared = False \<rparr>
   \<and> isProcessing after_drop
   \<and> (\<exists>a'. progressInterval (interval_tick 100 after_drop) = Some a'
          \<and> lastUpdateTime a' = 100 \<and> progress a' = 1 / 2)
   \<and> progressInterval at_30_5
        = Some \<lparr> progress = 61 / 2, lastUpdateTime = 6100, cleared = False \<rparr>
   \<and> isProcessing at_30_5
   \<and> (\<exists>a'. progressInterval (interval_tick 6200 at_30_5) = Some a'
          \<and> lastUpdateTime a' = 6200
          \<and> progress a' = 8669429282688205 / 281474976710656)"
proof -
  let ?a = "\<lparr> progress = 0, lastUpdateTime = 0, cleared = False \<rparr>"
  let ?b = "\<lparr> progress = 61 / 2, lastUpdateTime = 6100, cleared = False \<rparr>"
  have h: "progressInterval after_drop = Some ?a \<and> \<not> cleared ?a \<and> isProcessing after_drop"
    by (simp add: after_drop_fields)
  have g: "progressInterval at_30_5 = Some ?b \<and> \<not> cleared ?b \<and> isProcessing at_30_5"
    by (simp add: at_30_5_fields)
  from progress_timer_steps [where s = after_drop and a = ?a and now = 100 and r = epub_result] h
  obtain a' where a': "progressInterval (interval_tick 100 after_drop) = Some a'"
      "100 - lastUpdateTime ?a \<ge> 100 \<longrightarrow>
                 lastUpdateTime a' = 100 \<and>
                 progress a' = min (to_double (progress ?a +
                   (if progress ?a \<le> 30 then to_double 0.5
                    else if progress ?a < 60 then to_double 0.3
                    else if progress ?a < 80 then to_double 0.2 else to_double 0.1))) 95"
    by blast
  from a'(2) have "lastUpdateTime a' = 100 \<and> progress a' = 1 / 2"
    by (simp add: to_double_literals)
  with a'(1) have first: "\<exists>a'. progressInterval (interval_tick 100 after_drop) = Some a'
          \<and> lastUpdateTime a' = 100 \<and> progress a' = 1 / 2"
    by blast
  from progress_timer_steps [where s = at_30_5 and a = ?b and now = 6200 and r = epub_result] g
  obtain b' where b': "progressInterval (interval_tick 6200 at_30_5) = Some b'"
      "6200 - lastUpdateTime ?b \<ge> 100 \<longrightarrow>
                 lastUpdateTime b' = 6200 \<and>
                 progress b' = min (to_double (progress ?b +
                   (if progress ?b \<le> 30 then to_double 0.5
                    else if progress ?b < 60 then to_double 0.3
                    else if progress ?b < 80 then to_double 0.2 else to_double 0.1))) 95"
    by blast
  have sum: "to_double (554843474092045107 / 18014398509481984)
      = 8669429282688205 / 281474976710656"
    using to_double_30_8 by simp
  from b'(2) have "lastUpdateTime b' = 6200 \<and> progress b' = 8669429282688205 / 281474976710656"
    by (simp add: to_double_literals sum)
  with b'(1) have second: "\<exists>a'. progressInterval (interval_tick 6200 at_30_5) = Some a'
          \<and> lastUpdateTime a' = 6200
          \<and> progress a' = 8669429282688205 / 281474976710656"
    by blast
  from h g first second show ?thesis by blast
qed


lemma processSelectedFiles_dispatch:
  "uploadedFiles s \<noteq> [] \<Longrightarrow>
   isProcessing (processSelectedFiles now s)
   \<and> sent (processSelectedFiles now s) = sent s @
        [Process_dropped_files (uploadedFiles s)
           (if selectedFormat s \<noteq> [] then selectedFormat s
            else case format_checked s of
                   Some v \<Rightarrow> if v \<noteq> [] then v else ''auto'' | None \<Rightarrow> ''auto'')
           (selectedTemplate s)]"
  by (simp add: processSelectedFiles_def Let_def startProgressAnimation_fields showStatus_fields
        updateGenerateButtonState_def)

lemma on_template_confirm_dispatch:
  assumes "uploadedFiles s \<noteq> []"
  shows "isProcessing (on_template_confirm now s)
   \<and> sent (on_template_confirm now s) = sent s @
        [Process_dropped_files (uploadedFiles s)
           (if selectedFormat s \<noteq> [] then selectedFormat s
            else case format_checked s of
                   Some v \<Rightarrow> if v \<noteq> [] then v else ''auto'' | None \<Rightarrow> ''auto'')
           (if templateSelector_value s = ''auto'' then None else Some (templateSelector_value s))]"
proof -
  let ?s1 = "s\<lparr> selectedTemplate :=
                 (if templateSelector_value s = ''auto'' then None else Some (templateSelector_value s)),
               templateDialog_classList := templateDialog_classList s - {''active''} \<rparr>"
  have eq: "on_template_confirm now s = processSelectedFiles now ?s1"
    by (simp add: on_template_confirm_def Let_def)
  have "uploadedFiles ?s1 \<noteq> []" using assms by simp
  from processSelectedFiles_dispatch [OF this, of now]
  show ?thesis unfolding eq by simp
qed

lemma clearContent_fields:
  "uploadedFiles (clearContent True s) = []"
  "\<not> isProcessing (clearContent True s)"
  "generatedFilePath (clearContent True s) = None"
  "detectedNewsletterInfo (clearContent True s) = None"
  "selectedTemplate (clearContent True s) = None"
  "additionalGeneratedFiles (clearContent True s) = []"
  "progressInterval (clearContent True s) = None"
  "openFileBtn_disabled (clearContent True s)"
  "showInFolderBtn_disabled (clearContent True s)"
  "openSendToKindleBtn_disabled (clearContent True s)
     = map_option (\<lambda>d. True) (openSendToKindleBtn_disabled s)"
  "generateKindleBtn_disabled (clearContent True s)
     = map_option (\<lambda>d. True) (generateKindleBtn_disabled s)"
  "previewPanel (clearContent True s) = Pv_placeholder"
  "statusMessage (clearContent True s) = (St_ready, ''info'')"
  "dropZone_classList (clearContent True s)
     = dropZone_classList s - {''processing'', ''processed'', ''drag-over''}"
  "selectedFormat (clearContent True s) = selectedFormat s"
  "generatedFileFormat (clearContent True s) = generatedFileFormat s"
  by (simp_all add: clearContent_def Let_def updateGenerateButtonState_def showStatus_def)

text \<open>
  C5, as stated: no second request is dispatched while \<^verbatim>\<open>isProcessing\<close> holds, and an
  error event resets the flag. After a drop the flag holds and one request is out;
  confirming the template dialog sends the request again, a second drop sends another,
  and the error event leaves the flag set.
\<close>

theorem single_conversion_counterexample:
  "isProcessing after_drop
   \<and> sent after_drop = [Process_dropped_files [''/tmp/a.eml''] ''auto'' None]
   \<and> sent (on_template_confirm 300 after_drop)
       = [Process_dropped_files [''/tmp/a.eml''] ''auto'' None,
          Process_dropped_files [''/tmp/a.eml''] ''auto'' None]
   \<and> sent (on_drop [Path_string ''/tmp/b.eml''] 500 after_drop)
       = [Process_dropped_files [''/tmp/a.eml''] ''auto'' None,
          Process_dropped_files [''/tmp/b.eml''] ''auto'' None]
   \<and> isProcessing (on_error ''No valid files found for processing.'' after_drop)"
proof -
  have "uploadedFiles after_drop \<noteq> []" by (simp add: after_drop_fields)
  from on_template_confirm_dispatch [OF this, of 300]
  have "sent (on_template_confirm 300 after_drop)
       = [Process_dropped_files [''/tmp/a.eml''] ''auto'' None,
          Process_dropped_files [''/tmp/a.eml''] ''auto'' None]"
    by (simp add: after_drop_fields after_drop_eq initial_ui_def)
  then show ?thesis
    by (simp add: after_drop_fields on_error_def showStatus_fields on_drop_def handleFileDrop_def
        Let_def startProgressAnimation_fields updateGenerateButtonState_fields)
qed

text \<open>
  C5, amended: the generate action does nothing while \<^verbatim>\<open>isProcessing\<close> holds and
  nothing when no file is uploaded; when the flag does not hold and files are present,
  the action sets it and dispatches one request.
  Confirming the template dialog dispatches the request for the uploaded files whatever
  the flag is. The completion event and the clear action reset the flag, and the
  completion event dispatches nothing.
\<close>

theorem generate_guarded_by_isProcessing:
  "(isProcessing s \<longrightarrow> on_generate_click now s = s)
   \<and> (uploadedFiles s = [] \<longrightarrow> on_generate_click now s = s)
   \<and> (\<not> isProcessing s \<and> uploadedFiles s \<noteq> [] \<longrightarrow>
        isProcessing (on_generate_click now s)
        \<and> sent (on_generate_click now s) = sent s @
             [Process_dropped_files (uploadedFiles s)
                (if selectedFormat s \<noteq> [] then selectedFormat s
                 else case format_checked s of
                        Some v \<Rightarrow> if v \<noteq> [] then v else ''auto'' | None \<Rightarrow> ''auto'')
                (selectedTemplate s)])
   \<and> (uploadedFiles s \<noteq> [] \<longrightarrow>
        isProcessing (on_template_confirm now s)
        \<and> sent (on_template_confirm now s) = sent s @
             [Process_dropped_files (uploadedFiles s)
                (if selectedFormat s \<noteq> [] then selectedFormat s
                 else case format_checked s of
                        Some v \<Rightarrow> if v \<noteq> [] then v else ''auto'' | None \<Rightarrow> ''auto'')
                (if templateSelector_value s = ''auto'' then None
                 else Some (templateSelector_value s))])
   \<and> \<not> isProcessing (on_ebook_generated r s)
   \<and> sent (on_ebook_generated r s) = sent s
   \<and> \<not> isProcessing (on_clear_click s)"
proof (intro conjI impI)
  assume "uploadedFiles s \<noteq> []"
  from on_template_confirm_dispatch [OF this, of now]
  show "isProcessing (on_template_confirm now s)"
    and "sent (on_template_confirm now s) = sent s @
             [Process_dropped_files (uploadedFiles s)
                (if selectedFormat s \<noteq> [] then selectedFormat s
                 else case format_checked s of
                        Some v \<Rightarrow> if v \<noteq> [] then v else ''auto'' | None \<Rightarrow> ''auto'')
                (if templateSelector_value s = ''auto'' then None
                 else Some (templateSelector_value s))]"
    by blast+
next
  assume "isProcessing s"
  then show "on_generate_click now s = s" by (simp add: on_generate_click_def)
next
  assume "uploadedFiles s = []"
  then show "on_generate_click now s = s" by (simp add: on_generate_click_def)
next
  assume a: "\<not> isProcessing s \<and> uploadedFiles s \<noteq> []"
  then have eq: "on_generate_click now s = processSelectedFiles now s"
    by (simp add: on_generate_click_def)
  from a processSelectedFiles_dispatch [of s now]
  show "isProcessing (on_generate_click now s)" unfolding eq by blast
  from a processSelectedFiles_dispatch [of s now]
  show "sent (on_generate_click now s) = sent s @
             [Process_dropped_files (uploadedFiles s)
                (if selectedFormat s \<noteq> [] then selectedFormat s
                 else case format_checked s of
                        Some v \<Rightarrow> if v \<noteq> [] then v else ''auto'' | None \<Rightarrow> ''auto'')
                (selectedTemplate s)]"
    unfolding eq by blast
next
  show "\<not> isProcessing (on_ebook_generated r s)" by (rule on_ebook_generated_isProcessing)
next
  show "sent (on_ebook_generated r s) = sent s" by (rule on_ebook_generated_sent)
next
  show "\<not> isProcessing (on_clear_click s)" by (simp add: on_clear_click_def clearContent_fields)
qed

lemma after_completion_fields:
  "\<not> isProcessing after_completion"
  "sent after_completion = [Process_dropped_files [''/tmp/a.eml''] ''auto'' None]"
  "uploadedFiles after_completion = [''/tmp/a.eml'']"
  "selectedFormat after_completion = ''auto''"
  "selectedTemplate after_completion = None"
  "generatedFilePath after_completion = Some ''/x/out.epub''"
  "\<not> openFileBtn_disabled after_completion"
  "previewPanel after_completion = Pv_success epub_result None None"
  "generateKindleBtn_disabled after_completion = Some False"
  by (simp_all add: after_completion_def on_ebook_generated_def after_drop_eq initial_ui_def
        epub_result_def Let_def updateProgressDisplay_def showStatus_def
        updateGenerateButtonState_def)

text \<open>
  C5, amended, during and after a run.
\<close>

theorem generate_guarded_by_isProcessing_witness:
  "isProcessing after_drop
   \<and> sent (on_generate_click 700 after_drop) = sent after_drop
   \<and> uploadedFiles initial_ui = [] \<and> on_generate_click 5 initial_ui = initial_ui
   \<and> \<not> isProcessing after_completion \<and> uploadedFiles after_completion \<noteq> []
   \<and> sent (on_generate_click 900 after_completion)
       = [Process_dropped_files [''/tmp/a.eml''] ''auto'' None,
          Process_dropped_files [''/tmp/a.eml''] ''auto'' None]"
proof -
  have "on_generate_click 700 after_drop = after_drop"
    using generate_guarded_by_isProcessing [of after_drop 700] after_drop_fields(1) by blast
  moreover have h: "\<not> isProcessing after_completion \<and> uploadedFiles after_completion \<noteq> []"
    by (simp add: after_completion_fields)
  moreover from generate_guarded_by_isProcessing [of after_completion 900] h
  have "sent (on_generate_click 900 after_completion) = sent after_completion @
             [Process_dropped_files (uploadedFiles after_completion)
                (if selectedFormat after_completion \<noteq> [] then selectedFormat after_completion
                 else case format_checked after_completion of
                        Some v \<Rightarrow> if v \<noteq> [] then v else ''auto'' | None \<Rightarrow> ''auto'')
                (selectedTemplate after_completion)]"
    by blast
  then have "sent (on_generate_click 900 after_completion)
       = [Process_dropped_files [''/tmp/a.eml''] ''auto'' None,
          Process_dropped_files [''/tmp/a.eml''] ''auto'' None]"
    by (simp add: after_completion_fields)
  moreover have e: "uploadedFiles initial_ui = []" by (simp add: initial_ui_def)
  moreover from generate_guarded_by_isProcessing [of initial_ui 5] e
  have "on_generate_click 5 initial_ui = initial_ui" by blast
  ultimately show ?thesis using after_drop_fields(1) by simp
qed

text \<open>
  C6, as stated: the clear action resets \<^verbatim>\<open>selectedFormat\<close>. After the user has chosen
  \<^verbatim>\<open>epub\<close> the clear action leaves \<^verbatim>\<open>epub\<close> selected; the initial value is \<^verbatim>\<open>auto\<close>.
\<close>

theorem clear_resets_counterexample:
  "selectedFormat initial_ui = ''auto''
   \<and> selectedFormat (on_format_change ''epub'' initial_ui) = ''epub''
   \<and> selectedFormat (on_clear_click (on_format_change ''epub'' initial_ui)) = ''epub''"
  by (simp add: on_clear_click_def clearContent_fields on_format_change_def Let_def
        initial_ui_def)

text \<open>
  C6, amended: in any state the clear action empties \<^verbatim>\<open>uploadedFiles\<close>, resets
  \<^verbatim>\<open>isProcessing\<close>, clears \<^verbatim>\<open>generatedFilePath\<close>, \<^verbatim>\<open>detectedNewsletterInfo\<close> and
  \<^verbatim>\<open>selectedTemplate\<close>, disables the file actions and the generate action, shows the
  placeholder in the preview and takes the drop zone out of its processing, processed and
  drag-over states; \<^verbatim>\<open>selectedFormat\<close> stays as it is.
\<close>

theorem clear_resets_state:
  "uploadedFiles (on_clear_click s) = []
   \<and> \<not> isProcessing (on_clear_click s)
   \<and> generatedFilePath (on_clear_click s) = None
   \<and> detectedNewsletterInfo (on_clear_click s) = None
   \<and> selectedTemplate (on_clear_click s) = None
   \<and> selectedFormat (on_clear_click s) = selectedFormat s
   \<and> openFileBtn_disabled (on_clear_click s)
   \<and> showInFolderBtn_disabled (on_clear_click s)
   \<and> openSendToKindleBtn_disabled (on_clear_click s)
        = map_option (\<lambda>d. True) (openSendToKindleBtn_disabled s)
   \<and> generateKindleBtn_disabled (on_clear_click s)
        = map_option (\<lambda>d. True) (generateKindleBtn_disabled s)
   \<and> previewPanel (on_clear_click s) = Pv_placeholder
   \<and> previewPanel initial_ui = Pv_placeholder
   \<and> dropZone_classList (on_clear_click s) \<inter> {''processing'', ''processed'', ''drag-over''} = {}"
  by (simp add: on_clear_click_def clearContent_fields initial_ui_def)

text \<open>
  C6, amended, after a completed run.
\<close>

theorem clear_resets_state_witness:
  "uploadedFiles after_completion \<noteq> [] \<and> generatedFilePath after_completion \<noteq> None
   \<and> \<not> openFileBtn_disabled after_completion
   \<and> previewPanel after_completion \<noteq> Pv_placeholder
   \<and> uploadedFiles (on_clear_click after_completion) = []
   \<and> generatedFilePath (on_clear_click after_completion) = None
   \<and> openFileBtn_disabled (on_clear_click after_completion)
   \<and> generateKindleBtn_disabled (on_clear_click after_completion) = Some True
   \<and> previewPanel (on_clear_click after_completion) = Pv_placeholder"
  using clear_resets_state [of after_completion]
  by (simp add: after_completion_fields)

text \<open>
  C10 at a stale event: the run has completed, a \<^verbatim>\<open>progress-update\<close> of 50 arrives.
\<close>

theorem updateProgressDisplay_reenters_processing_witness:
  "\<not> isProcessing after_completion
   \<and> isProcessing (on_progress_update 50 ''Parsing'' after_completion)
   \<and> ''processing'' \<in> dropZone_classList (on_progress_update 50 ''Parsing'' after_completion)
   \<and> sent (on_progress_update 50 ''Parsing'' after_completion) = sent after_completion"
  using updateProgressDisplay_reenters_processing [of 50 "''Parsing''" after_completion]
  by (simp add: after_completion_fields)

subsection \<open>The first 71 ticks replayed\<close>

lemma binade_bounds:
  assumes "0 < x"
  shows "2 powr of_int (binade x) \<le> x \<and> x < 2 powr of_int (binade x + 1)"
proof -
  have "\<lfloor>log 2 x\<rfloor> = binade x" using assms by (simp add: binade_def)
  then show ?thesis using assms by (simp add: floor_log_eq_powr_iff)
qed

lemma to_double_half_integer:
  assumes "0 < k" "k < 2 ^ 53"
  shows "to_double (of_nat k / 2) = of_nat k / 2"
proof -
  let ?x = "of_nat k / 2 :: real"
  let ?e = "binade ?x"
  have pos: "0 < ?x" using assms(1) by simp
  from binade_bounds [OF pos] have b: "2 powr of_int ?e \<le> ?x" "?x < 2 powr of_int (?e + 1)"
    by simp_all
  have "?x < 2 ^ 52"
  proof -
    have "real k < 2 ^ 53" using assms(2) by (metis of_nat_less_iff of_nat_numeral of_nat_power)
    then show ?thesis by simp
  qed
  then have "?x < 2 powr of_int 52" by simp
  with b(1) have "2 powr of_int ?e < (2 powr of_int 52 :: real)" by linarith
  then have "real_of_int ?e < real_of_int 52"
    by (rule powr_less_cancel) simp
  then have hi: "?e < 52" by (simp only: of_int_less_iff)
  have "1 \<le> real k" using assms(1) by simp
  then have "2 powr of_int (- 1) \<le> ?x" by (simp add: powr_minus)
  with b(2) have "2 powr of_int (- 1) < (2 powr of_int (?e + 1) :: real)" by linarith
  then have "real_of_int (- 1) < real_of_int (?e + 1)"
    by (rule powr_less_cancel) simp
  then have "- 1 < ?e + 1" by (simp only: of_int_less_iff)
  then have lo: "- 1 \<le> ?e" by simp
  define n where "n = nat (51 - ?e)"
  have n: "nat (52 - ?e) = Suc n" using hi by (simp add: n_def)
  have "to_double ?x = of_int (round_ties_even (?x * 2 ^ nat (52 - ?e))) / 2 ^ nat (52 - ?e)"
    using b hi by (intro to_double_scaled) simp_all
  also have "?x * 2 ^ nat (52 - ?e) = of_int (int k * 2 ^ n)"
    unfolding n by simp
  also have "of_int (round_ties_even (of_int (int k * 2 ^ n))) / 2 ^ nat (52 - ?e) = ?x"
    unfolding round_ties_even_of_int n by simp
  finally show ?thesis .
qed

lemma rounded_sum_62:
  "to_double (61 / 2 + 5404319552844595 / 18014398509481984)
     = 8669429282688205 / 281474976710656"
proof -
  let ?x = "61 / 2 + 5404319552844595 / 18014398509481984 :: real"
  have "to_double ?x = of_int (round_ties_even (?x * 2 ^ nat (52 - 4))) / 2 ^ nat (52 - 4)"
    by (rule to_double_scaled) simp_all
  also have "\<dots> = 8669429282688205 / 281474976710656"
    by (simp add: round_ties_even_def)
  finally show ?thesis .
qed

lemma rounded_sum_63:
  "to_double (8669429282688205 / 281474976710656 + 5404319552844595 / 18014398509481984)
     = 4376935887850701 / 140737488355328"
proof -
  let ?x = "8669429282688205 / 281474976710656 + 5404319552844595 / 18014398509481984 :: real"
  have "to_double ?x = of_int (round_ties_even (?x * 2 ^ nat (52 - 4))) / 2 ^ nat (52 - 4)"
    by (rule to_double_scaled) simp_all
  also have "\<dots> = 4376935887850701 / 140737488355328"
    by (simp add: round_ties_even_def)
  finally show ?thesis .
qed

lemma rounded_sum_64:
  "to_double (4376935887850701 / 140737488355328 + 5404319552844595 / 18014398509481984)
     = 8838314268714599 / 281474976710656"
proof -
  let ?x = "4376935887850701 / 140737488355328 + 5404319552844595 / 18014398509481984 :: real"
  have "to_double ?x = of_int (round_ties_even (?x * 2 ^ nat (52 - 4))) / 2 ^ nat (52 - 4)"
    by (rule to_double_scaled) simp_all
  also have "\<dots> = 8838314268714599 / 281474976710656"
    by (simp add: round_ties_even_def)
  finally show ?thesis .
qed

lemma rounded_sum_65:
  "to_double (8838314268714599 / 281474976710656 + 5404319552844595 / 18014398509481984)
     = 2230689190431949 / 70368744177664"
proof -
  let ?x = "8838314268714599 / 281474976710656 + 5404319552844595 / 18014398509481984 :: real"
  have "to_double ?x = of_int (round_ties_even (?x * 2 ^ nat (52 - 4))) / 2 ^ nat (52 - 4)"
    by (rule to_double_scaled) simp_all
  also have "\<dots> = 2230689190431949 / 70368744177664"
    by (simp add: round_ties_even_def)
  finally show ?thesis .
qed

lemma rounded_sum_66:
  "to_double (2230689190431949 / 70368744177664 + 5404319552844595 / 18014398509481984)
     = 32"
proof -
  let ?x = "2230689190431949 / 70368744177664 + 5404319552844595 / 18014398509481984 :: real"
  have "to_double ?x = of_int (round_ties_even (?x * 2 ^ nat (52 - 5))) / 2 ^ nat (52 - 5)"
    by (rule to_double_scaled) simp_all
  also have "\<dots> = 32"
    by (simp add: round_ties_even_def)
  finally show ?thesis .
qed

lemma rounded_sum_67:
  "to_double (32 + 5404319552844595 / 18014398509481984)
     = 2272910436938547 / 70368744177664"
proof -
  let ?x = "32 + 5404319552844595 / 18014398509481984 :: real"
  have "to_double ?x = of_int (round_ties_even (?x * 2 ^ nat (52 - 5))) / 2 ^ nat (52 - 5)"
    by (rule to_double_scaled) simp_all
  also have "\<dots> = 2272910436938547 / 70368744177664"
    by (simp add: round_ties_even_def)
  finally show ?thesis .
qed

lemma rounded_sum_68:
  "to_double (2272910436938547 / 70368744177664 + 5404319552844595 / 18014398509481984)
     = 1147010530095923 / 35184372088832"
proof -
  let ?x = "2272910436938547 / 70368744177664 + 5404319552844595 / 18014398509481984 :: real"
  have "to_double ?x = of_int (round_ties_even (?x * 2 ^ nat (52 - 5))) / 2 ^ nat (52 - 5)"
    by (rule to_double_scaled) simp_all
  also have "\<dots> = 1147010530095923 / 35184372088832"
    by (simp add: round_ties_even_def)
  finally show ?thesis .
qed

lemma rounded_sum_69:
  "to_double (1147010530095923 / 35184372088832 + 5404319552844595 / 18014398509481984)
     = 2315131683445145 / 70368744177664"
proof -
  let ?x = "1147010530095923 / 35184372088832 + 5404319552844595 / 18014398509481984 :: real"
  have "to_double ?x = of_int (round_ties_even (?x * 2 ^ nat (52 - 5))) / 2 ^ nat (52 - 5)"
    by (rule to_double_scaled) simp_all
  also have "\<dots> = 2315131683445145 / 70368744177664"
    by (simp add: round_ties_even_def)
  finally show ?thesis .
qed

lemma rounded_sum_70:
  "to_double (2315131683445145 / 70368744177664 + 5404319552844595 / 18014398509481984)
     = 584060576674611 / 17592186044416"
proof -
  let ?x = "2315131683445145 / 70368744177664 + 5404319552844595 / 18014398509481984 :: real"
  have "to_double ?x = of_int (round_ties_even (?x * 2 ^ nat (52 - 5))) / 2 ^ nat (52 - 5)"
    by (rule to_double_scaled) simp_all
  also have "\<dots> = 584060576674611 / 17592186044416"
    by (simp add: round_ties_even_def)
  finally show ?thesis .
qed

lemma rounded_sum_71:
  "to_double (584060576674611 / 17592186044416 + 5404319552844595 / 18014398509481984)
     = 2357352929951743 / 70368744177664"
proof -
  let ?x = "584060576674611 / 17592186044416 + 5404319552844595 / 18014398509481984 :: real"
  have "to_double ?x = of_int (round_ties_even (?x * 2 ^ nat (52 - 5))) / 2 ^ nat (52 - 5)"
    by (rule to_double_scaled) simp_all
  also have "\<dots> = 2357352929951743 / 70368744177664"
    by (simp add: round_ties_even_def)
  finally show ?thesis .
qed


lemma getStatusForProgress_nonempty: "getStatusForProgress p \<noteq> []"
  by (simp add: getStatusForProgress_def)

lemma tick_facts:
  assumes "progressInterval s = Some \<lparr> progress = p, lastUpdateTime = t, cleared = False \<rparr>"
    "isProcessing s" "progressBar s = Some d" "100 \<le> now - t"
    "to_double (p + increment p) = q" "q \<le> 95"
  shows "progressInterval (interval_tick now s)
           = Some \<lparr> progress = q, lastUpdateTime = now, cleared = False \<rparr>
     \<and> isProcessing (interval_tick now s)
     \<and> progressBar (interval_tick now s) = Some (Math_round q)"
proof -
  have c: "\<not> cleared \<lparr> progress = p, lastUpdateTime = t, cleared = False \<rparr>" by simp
  show ?thesis
    unfolding interval_tick_live [OF assms(1) c assms(2)]
    using assms(2-6) by (simp add: updateProgressDisplay_fields min_def)
qed

lemma last_ticks:
  "ts \<noteq> [] \<Longrightarrow> last (ticks ts s) = foldl (\<lambda>s t. interval_tick t s) s ts"
proof (induction ts arbitrary: s)
  case Nil
  then show ?case by simp
next
  case (Cons t ts)
  then show ?case by (cases ts) simp_all
qed

text \<open>
  The first 61 ticks after the drop, one every 100 ms, each add 0.5 without rounding.
\<close>

lemma half_steps:
  assumes "0 < n" "n \<le> 61"
  shows "foldl (\<lambda>s t. interval_tick t s) after_drop (map (\<lambda>i. 100 * int i) [1..<Suc n])
    = after_drop
       \<lparr> progressInterval :=
           Some \<lparr> progress = of_nat n / 2, lastUpdateTime = 100 * int n, cleared = False \<rparr>,
         progressBar := Some (Math_round (of_nat n / 2)),
         spinner := Some (Math_round (of_nat n / 2)),
         processingStatus := Some (getStatusForProgress (of_nat n / 2)) \<rparr>"
  using assms
proof (induction n rule: nat_induct_non_zero)
  case 1
  have i: "increment 0 = 1 / 2" by (simp add: increment_def to_double_literals)
  have "interval_tick 100 after_drop =
      updateProgressDisplay (Math_round (1 / 2)) (getStatusForProgress (1 / 2))
        (after_drop\<lparr> progressInterval :=
           Some \<lparr> progress = 1 / 2, lastUpdateTime = 100, cleared = False \<rparr> \<rparr>)"
    using interval_tick_live [of after_drop
        "\<lparr> progress = 0, lastUpdateTime = 0, cleared = False \<rparr>" 100]
    by (simp add: after_drop_fields i to_double_literals)
  also have "\<dots> = after_drop
       \<lparr> progressInterval :=
           Some \<lparr> progress = 1 / 2, lastUpdateTime = 100, cleared = False \<rparr>,
         progressBar := Some (Math_round (1 / 2)),
         spinner := Some (Math_round (1 / 2)),
         processingStatus := Some (getStatusForProgress (1 / 2)) \<rparr>"
    by (simp add: updateProgressDisplay_def Let_def after_drop_eq initial_ui_def
          Math_round_def getStatusForProgress_def)
  finally show ?case by simp
next
  case (Suc n)
  let ?s = "after_drop
       \<lparr> progressInterval :=
           Some \<lparr> progress = of_nat n / 2, lastUpdateTime = 100 * int n, cleared = False \<rparr>,
         progressBar := Some (Math_round (of_nat n / 2)),
         spinner := Some (Math_round (of_nat n / 2)),
         processingStatus := Some (getStatusForProgress (of_nat n / 2)) \<rparr>"
  let ?q = "of_nat (Suc n) / 2 :: real"
  from Suc.prems have n: "n \<le> 60" by simp
  then have le30: "real n / 2 \<le> 30" by simp
  have i: "increment (of_nat n / 2) = 1 / 2"
    using le30 by (simp add: increment_def to_double_literals)
  have "of_nat n / 2 + 1 / 2 = ?q" by (simp add: field_simps)
  then have "to_double (of_nat n / 2 + increment (of_nat n / 2)) = to_double ?q"
    unfolding i by (rule arg_cong)
  also have "\<dots> = ?q"
    using n by (intro to_double_half_integer) simp_all
  finally have q: "to_double (of_nat n / 2 + increment (of_nat n / 2)) = ?q" .
  have q95: "?q \<le> 95" using n by simp
  then have r: "Math_round ?q < 100" using Math_round_le_95 [of ?q] by linarith
  have "interval_tick (100 * int (Suc n)) ?s =
      updateProgressDisplay (Math_round ?q) (getStatusForProgress ?q)
        (?s\<lparr> progressInterval :=
           Some \<lparr> progress = ?q, lastUpdateTime = 100 * int (Suc n), cleared = False \<rparr> \<rparr>)"
    using interval_tick_live [of ?s
        "\<lparr> progress = of_nat n / 2, lastUpdateTime = 100 * int n, cleared = False \<rparr>"
        "100 * int (Suc n)"] q q95
    by (simp add: after_drop_fields min_def)
  also have "\<dots> = after_drop
       \<lparr> progressInterval :=
           Some \<lparr> progress = ?q, lastUpdateTime = 100 * int (Suc n), cleared = False \<rparr>,
         progressBar := Some (Math_round ?q),
         spinner := Some (Math_round ?q),
         processingStatus := Some (getStatusForProgress ?q) \<rparr>"
    using r getStatusForProgress_nonempty [of ?q]
    by (simp add: updateProgressDisplay_def Let_def after_drop_eq initial_ui_def)
  finally have step: "interval_tick (100 * int (Suc n)) ?s = after_drop
       \<lparr> progressInterval :=
           Some \<lparr> progress = ?q, lastUpdateTime = 100 * int (Suc n), cleared = False \<rparr>,
         progressBar := Some (Math_round ?q),
         spinner := Some (Math_round ?q),
         processingStatus := Some (getStatusForProgress ?q) \<rparr>" .
  have "foldl (\<lambda>s t. interval_tick t s) after_drop (map (\<lambda>i. 100 * int i) [1..<Suc (Suc n)])
      = interval_tick (100 * int (Suc n))
          (foldl (\<lambda>s t. interval_tick t s) after_drop (map (\<lambda>i. 100 * int i) [1..<Suc n]))"
    by simp
  also have "\<dots> = interval_tick (100 * int (Suc n)) ?s"
    using Suc.IH n by simp
  finally show ?case using step by simp
qed

lemma at_30_5_reached:
  "last (ticks (map (\<lambda>i. 100 * int i) [1..<62]) after_drop) = at_30_5"
proof -
  have "last (ticks (map (\<lambda>i. 100 * int i) [1..<Suc 61]) after_drop)
      = foldl (\<lambda>s t. interval_tick t s) after_drop (map (\<lambda>i. 100 * int i) [1..<Suc 61])"
    by (rule last_ticks) simp
  also have "\<dots> = after_drop
       \<lparr> progressInterval :=
           Some \<lparr> progress = of_nat 61 / 2, lastUpdateTime = 100 * int 61, cleared = False \<rparr>,
         progressBar := Some (Math_round (of_nat 61 / 2)),
         spinner := Some (Math_round (of_nat 61 / 2)),
         processingStatus := Some (getStatusForProgress (of_nat 61 / 2)) \<rparr>"
    by (rule half_steps) simp_all
  also have "\<dots> = at_30_5"
    by (simp add: at_30_5_def Math_round_def getStatusForProgress_def)
  finally show ?thesis by simp
qed

text \<open>
  Ten more ticks: the sums are rounded, and at the seventy-first tick the animation
  stands just below 33.5, so the bar shows 33.
\<close>

lemma tick_71:
  "progressInterval (last (ticks [6200, 6300, 6400, 6500, 6600, 6700, 6800, 6900, 7000, 7100] at_30_5))
     = Some \<lparr> progress = 2357352929951743 / 70368744177664, lastUpdateTime = 7100, cleared = False \<rparr>
   \<and> progressBar (last (ticks [6200, 6300, 6400, 6500, 6600, 6700, 6800, 6900, 7000, 7100] at_30_5))
     = Some 33"
proof -
  let ?c = "5404319552844595 / 18014398509481984 :: real"
  define s61 where "s61 = at_30_5"
  have f61: "progressInterval s61 = Some \<lparr> progress = 61 / 2, lastUpdateTime = 6100, cleared = False \<rparr>
     \<and> isProcessing s61 \<and> progressBar s61 = Some (Math_round (61 / 2))"
    by (simp add: s61_def at_30_5_fields Math_round_def)
  define s62 where "s62 = interval_tick 6200 s61"
  have i62: "increment (61 / 2) = ?c" by (simp add: increment_def to_double_literals)
  have q62: "to_double (61 / 2 + increment (61 / 2)) = 8669429282688205 / 281474976710656"
    unfolding i62 by (rule rounded_sum_62)
  have f62: "progressInterval s62 = Some \<lparr> progress = 8669429282688205 / 281474976710656, lastUpdateTime = 6200, cleared = False \<rparr>
     \<and> isProcessing s62 \<and> progressBar s62 = Some (Math_round (8669429282688205 / 281474976710656))"
    unfolding s62_def
    by (rule tick_facts [OF f61 [THEN conjunct1] f61 [THEN conjunct2, THEN conjunct1]
          f61 [THEN conjunct2, THEN conjunct2] _ q62]) simp_all
  define s63 where "s63 = interval_tick 6300 s62"
  have i63: "increment (8669429282688205 / 281474976710656) = ?c" by (simp add: increment_def to_double_literals)
  have q63: "to_double (8669429282688205 / 281474976710656 + increment (8669429282688205 / 281474976710656)) = 4376935887850701 / 140737488355328"
    unfolding i63 by (rule rounded_sum_63)
  have f63: "progressInterval s63 = Some \<lparr> progress = 4376935887850701 / 140737488355328, lastUpdateTime = 6300, cleared = False \<rparr>
     \<and> isProcessing s63 \<and> progressBar s63 = Some (Math_round (4376935887850701 / 140737488355328))"
    unfolding s63_def
    by (rule tick_facts [OF f62 [THEN conjunct1] f62 [THEN conjunct2, THEN conjunct1]
          f62 [THEN conjunct2, THEN conjunct2] _ q63]) simp_all
  define s64 where "s64 = interval_tick 6400 s63"
  have i64: "increment (4376935887850701 / 140737488355328) = ?c" by (simp add: increment_def to_double_literals)
  have q64: "to_double (4376935887850701 / 140737488355328 + increment (4376935887850701 / 140737488355328)) = 8838314268714599 / 281474976710656"
    unfolding i64 by (rule rounded_sum_64)
  have f64: "progressInterval s64 = Some \<lparr> progress = 8838314268714599 / 281474976710656, lastUpdateTime = 6400, cleared = False \<rparr>
     \<and> isProcessing s64 \<and> progressBar s64 = Some (Math_round (8838314268714599 / 281474976710656))"
    unfolding s64_def
    by (rule tick_facts [OF f63 [THEN conjunct1] f63 [THEN conjunct2, THEN conjunct1]
          f63 [THEN conjunct2, THEN conjunct2] _ q64]) simp_all
  define s65 where "s65 = interval_tick 6500 s64"
  have i65: "increment (8838314268714599 / 281474976710656) = ?c" by (simp add: increment_def to_double_literals)
  have q65: "to_double (8838314268714599 / 281474976710656 + increment (8838314268714599 / 281474976710656)) = 2230689190431949 / 70368744177664"
    unfolding i65 by (rule rounded_sum_65)
  have f65: "progressInterval s65 = Some \<lparr> progress = 2230689190431949 / 70368744177664, lastUpdateTime = 6500, cleared = False \<rparr>
     \<and> isProcessing s65 \<and> progressBar s65 = Some (Math_round (2230689190431949 / 70368744177664))"
    unfolding s65_def
    by (rule tick_facts [OF f64 [THEN conjunct1] f64 [THEN conjunct2, THEN conjunct1]
          f64 [THEN conjunct2, THEN conjunct2] _ q65]) simp_all
  define s66 where "s66 = interval_tick 6600 s65"
  have i66: "increment (2230689190431949 / 70368744177664) = ?c" by (simp add: increment_def to_double_literals)
  have q66: "to_double (2230689190431949 / 70368744177664 + increment (2230689190431949 / 70368744177664)) = 32"
    unfolding i66 by (rule rounded_sum_66)
  have f66: "progressInterval s66 = Some \<lparr> progress = 32, lastUpdateTime = 6600, cleared = False \<rparr>
     \<and> isProcessing s66 \<and> progressBar s66 = Some (Math_round (32))"
    unfolding s66_def
    by (rule tick_facts [OF f65 [THEN conjunct1] f65 [THEN conjunct2, THEN conjunct1]
          f65 [THEN conjunct2, THEN conjunct2] _ q66]) simp_all
  define s67 where "s67 = interval_tick 6700 s66"
  have i67: "increment (32) = ?c" by (simp add: increment_def to_double_literals)
  have q67: "to_double (32 + increment (32)) = 2272910436938547 / 70368744177664"
    unfolding i67 by (rule rounded_sum_67)
  have f67: "progressInterval s67 = Some \<lparr> progress = 2272910436938547 / 70368744177664, lastUpdateTime = 6700, cleared = False \<rparr>
     \<and> isProcessing s67 \<and> progressBar s67 = Some (Math_round (2272910436938547 / 70368744177664))"
    unfolding s67_def
    by (rule tick_facts [OF f66 [THEN conjunct1] f66 [THEN conjunct2, THEN conjunct1]
          f66 [THEN conjunct2, THEN conjunct2] _ q67]) simp_all
  define s68 where "s68 = interval_tick 6800 s67"
  have i68: "increment (2272910436938547 / 70368744177664) = ?c" by (simp add: increment_def to_double_literals)
  have q68: "to_double (2272910436938547 / 70368744177664 + increment (2272910436938547 / 70368744177664)) = 1147010530095923 / 35184372088832"
    unfolding i68 by (rule rounded_sum_68)
  have f68: "progressInterval s68 = Some \<lparr> progress = 1147010530095923 / 35184372088832, lastUpdateTime = 6800, cleared = False \<rparr>
     \<and> isProcessing s68 \<and> progressBar s68 = Some (Math_round (1147010530095923 / 35184372088832))"
    unfolding s68_def
    by (rule tick_facts [OF f67 [THEN conjunct1] f67 [THEN conjunct2, THEN conjunct1]
          f67 [THEN conjunct2, THEN conjunct2] _ q68]) simp_all
  define s69 where "s69 = interval_tick 6900 s68"
  have i69: "increment (1147010530095923 / 35184372088832) = ?c" by (simp add: increment_def to_double_literals)
  have q69: "to_double (1147010530095923 / 35184372088832 + increment (1147010530095923 / 35184372088832)) = 2315131683445145 / 70368744177664"
    unfolding i69 by (rule rounded_sum_69)
  have f69: "progressInterval s69 = Some \<lparr> progress = 2315131683445145 / 70368744177664, lastUpdateTime = 6900, cleared = False \<rparr>
     \<and> isProcessing s69 \<and> progressBar s69 = Some (Math_round (2315131683445145 / 70368744177664))"
    unfolding s69_def
    by (rule tick_facts [OF f68 [THEN conjunct1] f68 [THEN conjunct2, THEN conjunct1]
          f68 [THEN conjunct2, THEN conjunct2] _ q69]) simp_all
  define s70 where "s70 = interval_tick 7000 s69"
  have i70: "increment (2315131683445145 / 70368744177664) = ?c" by (simp add: increment_def to_double_literals)
  have q70: "to_double (2315131683445145 / 70368744177664 + increment (2315131683445145 / 70368744177664)) = 584060576674611 / 17592186044416"
    unfolding i70 by (rule rounded_sum_70)
  have f70: "progressInterval s70 = Some \<lparr> progress = 584060576674611 / 17592186044416, lastUpdateTime = 7000, cleared = False \<rparr>
     \<and> isProcessing s70 \<and> progressBar s70 = Some (Math_round (584060576674611 / 17592186044416))"
    unfolding s70_def
    by (rule tick_facts [OF f69 [THEN conjunct1] f69 [THEN conjunct2, THEN conjunct1]
          f69 [THEN conjunct2, THEN conjunct2] _ q70]) simp_all
  define s71 where "s71 = interval_tick 7100 s70"
  have i71: "increment (584060576674611 / 17592186044416) = ?c" by (simp add: increment_def to_double_literals)
  have q71: "to_double (584060576674611 / 17592186044416 + increment (584060576674611 / 17592186044416)) = 2357352929951743 / 70368744177664"
    unfolding i71 by (rule rounded_sum_71)
  have f71: "progressInterval s71 = Some \<lparr> progress = 2357352929951743 / 70368744177664, lastUpdateTime = 7100, cleared = False \<rparr>
     \<and> isProcessing s71 \<and> progressBar s71 = Some (Math_round (2357352929951743 / 70368744177664))"
    unfolding s71_def
    by (rule tick_facts [OF f70 [THEN conjunct1] f70 [THEN conjunct2, THEN conjunct1]
          f70 [THEN conjunct2, THEN conjunct2] _ q71]) simp_all
  have l: "last (ticks [6200, 6300, 6400, 6500, 6600, 6700, 6800, 6900, 7000, 7100] at_30_5) = s71"
    by (simp add: s62_def s63_def s64_def s65_def s66_def s67_def s68_def s69_def s70_def s71_def s61_def)
  have r: "Math_round (2357352929951743 / 70368744177664) = 33" by (simp add: Math_round_def)
  from f71 show ?thesis unfolding l r by simp
qed

end
